theory Spec2Isabelle
  imports Complex_Main "HOL-Library.FSet" "HOL-Library.Multiset"
begin

section \<open>Python string and slice primitives\<close>

text \<open>
  A Python \<open>str\<close> is modelled as a \<open>string\<close>: one list element per character.
  \<open>py_isspace\<close> is \<open>str.isspace\<close> on the code points below 256, which is what
  \<open>str.strip()\<close> without arguments removes at both ends.
\<close>

definition py_isspace :: "char \<Rightarrow> bool" where
  "py_isspace c =
     (let n = (of_char c :: nat)
      in (9 \<le> n \<and> n \<le> 13) \<or> (28 \<le> n \<and> n \<le> 32) \<or> n = 133 \<or> n = 160)"

definition strip :: "string \<Rightarrow> string" where
  "strip s = rev (dropWhile py_isspace (rev (dropWhile py_isspace s)))"

definition startswith :: "string \<Rightarrow> string \<Rightarrow> bool" where
  "startswith s sub = (take (length sub) s = sub)"

text \<open>\<open>py_in sub s\<close> is the Python expression \<open>sub in s\<close> on strings.\<close>

fun py_in :: "string \<Rightarrow> string \<Rightarrow> bool" where
  "py_in sub [] = (sub = [])"
| "py_in sub (c # cs) = (startswith (c # cs) sub \<or> py_in sub cs)"

text \<open>\<open>str.rfind\<close>: the highest index at which \<open>sub\<close> occurs, \<open>-1\<close> when it does not.\<close>

fun rfind_at :: "string \<Rightarrow> string \<Rightarrow> nat \<Rightarrow> int" where
  "rfind_at s sub 0 = (if startswith s sub then 0 else - 1)"
| "rfind_at s sub (Suc i) =
     (if startswith (drop (Suc i) s) sub then int (Suc i) else rfind_at s sub i)"

definition rfind :: "string \<Rightarrow> string \<Rightarrow> int" where
  "rfind s sub =
     (if length sub \<le> length s then rfind_at s sub (length s - length sub) else - 1)"

text \<open>
  Python slicing \<open>xs[i:j]\<close> with integer bounds: a negative bound counts from the end,
  and every bound is clipped to the list.
\<close>

definition py_clip :: "int \<Rightarrow> nat \<Rightarrow> nat" where
  "py_clip i n = (if i < 0 then nat (max 0 (int n + i)) else min (nat i) n)"

definition py_slice :: "'a list \<Rightarrow> int \<Rightarrow> int \<Rightarrow> 'a list" where
  "py_slice xs i j =
     (let a = py_clip i (length xs); b = py_clip j (length xs)
      in take (b - a) (drop a xs))"

section \<open>Chunking (\<open>EmbeddingGenerator.chunk_text\<close>)\<close>

definition boundaries :: "string list" where
  "boundaries =
     [''. '', [CHR ''.'', CHR 0x0A], [CHR 0x0A, CHR 0x0A], [CHR 0x0A], '' '']"

text \<open>
  The \<open>for boundary in [...]\<close> loop: the first boundary whose last occurrence in the
  window lies past the midpoint gives the new window length.
\<close>

fun find_boundary :: "string \<Rightarrow> int \<Rightarrow> string list \<Rightarrow> int option" where
  "find_boundary window chunk_size [] = None"
| "find_boundary window chunk_size (b # bs) =
     (let last_boundary = rfind window b
      in if last_boundary > chunk_size div 2 then Some (last_boundary + int (length b))
         else find_boundary window chunk_size bs)"

definition chunk_end :: "string \<Rightarrow> int \<Rightarrow> int \<Rightarrow> int" where
  "chunk_end text chunk_size start =
     (let end_pos = start + chunk_size
      in if end_pos < int (length text)
         then (case find_boundary (py_slice text start end_pos) chunk_size boundaries of
                 Some off \<Rightarrow> start + off
               | None \<Rightarrow> end_pos)
         else end_pos)"

text \<open>
  The \<open>while start < len(text)\<close> loop. For arbitrary parameters it need not terminate
  (an overlap as large as the chunk size never advances), so not returning is \<open>None\<close>.
\<close>

partial_function (option) chunk_loop ::
  "string \<Rightarrow> int \<Rightarrow> int \<Rightarrow> int \<Rightarrow> string list \<Rightarrow> string list option" where
  "chunk_loop text chunk_size overlap start chunks =
     (if start < int (length text)
      then (let end_pos = chunk_end text chunk_size start;
                chunk = strip (py_slice text start end_pos)
            in chunk_loop text chunk_size overlap (end_pos - overlap)
                 (if chunk \<noteq> [] then chunks @ [chunk] else chunks))
      else Some chunks)"

declare chunk_loop.simps [code]

definition chunk_text :: "string \<Rightarrow> int \<Rightarrow> int \<Rightarrow> string list option" where
  "chunk_text text chunk_size overlap =
     (if int (length text) \<le> chunk_size then Some [text]
      else chunk_loop text chunk_size overlap 0 [])"

text \<open>
  Specification vocabulary for coverage. A span \<open>(s, e)\<close> is the window \<open>text[s:e]\<close>
  of one loop iteration; \<open>window_chunks\<close> are the trimmed, non-empty windows, which is
  what the loop appends. \<open>overlapping_cover overlap n start spans\<close> says that the windows
  begin at \<open>start\<close>, that each next window begins \<open>overlap\<close> characters before the end
  of the previous one and strictly after its beginning, and that they go on until the
  position \<open>n\<close> is reached. \<open>covered text cs p\<close> says that position \<open>p\<close> of the text lies
  inside an occurrence of one of the chunks \<open>cs\<close>.
\<close>

definition window_chunks :: "string \<Rightarrow> (int \<times> int) list \<Rightarrow> string list" where
  "window_chunks text spans =
     filter (\<lambda>c. c \<noteq> []) (map (\<lambda>(s, e). strip (py_slice text s e)) spans)"

fun overlapping_cover :: "int \<Rightarrow> int \<Rightarrow> int \<Rightarrow> (int \<times> int) list \<Rightarrow> bool" where
  "overlapping_cover overlap n start [] = (n \<le> start)"
| "overlapping_cover overlap n start ((s, e) # rest) =
     (s = start \<and> start < n \<and> start < e - overlap \<and> overlapping_cover overlap n (e - overlap) rest)"

definition covered :: "string \<Rightarrow> string list \<Rightarrow> nat \<Rightarrow> bool" where
  "covered text cs p =
     (\<exists>c\<in>set cs. \<exists>j\<le>p. p < j + length c \<and> take (length c) (drop j text) = c)"

section \<open>Model Access Gateway (\<open>GroqClient\<close>)\<close>

subsection \<open>\<open>clean_llm_response\<close>\<close>

text \<open>\<open>str.lower\<close> on the code points below 256.\<close>

definition py_lower_char :: "char \<Rightarrow> char" where
  "py_lower_char c =
     (let n = (of_char c :: nat)
      in if (65 \<le> n \<and> n \<le> 90) \<or> (192 \<le> n \<and> n \<le> 214) \<or> (216 \<le> n \<and> n \<le> 222)
         then char_of (n + 32) else c)"

definition lower :: "string \<Rightarrow> string" where
  "lower s = map py_lower_char s"

text \<open>First position at which \<open>tag\<close> occurs in \<open>s\<close>, letter case ignored.\<close>

fun ifind :: "string \<Rightarrow> string \<Rightarrow> nat option" where
  "ifind tag [] = (if tag = [] then Some 0 else None)"
| "ifind tag (c # cs) =
     (if lower (take (length tag) (c # cs)) = tag then Some 0
      else map_option Suc (ifind tag cs))"

lemma ifind_bound: "ifind tag s = Some i \<Longrightarrow> i + length tag \<le> length s"
proof (induction s arbitrary: i)
  case Nil
  then show ?case by (simp split: if_splits)
next
  case (Cons c cs)
  show ?case
  proof (cases "lower (take (length tag) (c # cs)) = tag")
    case True
    then have "length tag = length (take (length tag) (c # cs))"
      by (metis length_map lower_def)
    with True Cons.prems show ?thesis by simp
  next
    case False
    with Cons show ?thesis by auto
  qed
qed

text \<open>
  \<open>re.sub(r'<think>.*?</think>', '', text, flags=re.DOTALL | re.IGNORECASE)\<close>: each
  opening tag is removed together with everything up to the nearest closing tag; an
  opening tag with no closing tag after it ends the substitution.
\<close>

function remove_think_blocks :: "string \<Rightarrow> string" where
  "remove_think_blocks s =
     (case ifind ''<think>'' s of
        None \<Rightarrow> s
      | Some i \<Rightarrow>
          (case ifind ''</think>'' (drop (i + 7) s) of
             None \<Rightarrow> s
           | Some j \<Rightarrow> take i s @ remove_think_blocks (drop (i + 7 + j + 8) s)))"
  by pat_completeness auto
termination
proof (relation "measure length")
  show "wf (measure length)" by simp
next
  fix s :: string and i j
  assume "ifind ''<think>'' s = Some i"
  from ifind_bound[OF this] have "7 \<le> length s" by simp
  then have "0 < length s" by linarith
  then show "(drop (i + 7 + j + 8) s, s) \<in> measure length" by simp
qed

text \<open>\<open>re.sub(r'</?think>', '', cleaned, flags=re.IGNORECASE)\<close>; the first argument counts
  the characters of a matched tag still to be skipped.\<close>

fun remove_think_tags :: "nat \<Rightarrow> string \<Rightarrow> string" where
  "remove_think_tags skip [] = []"
| "remove_think_tags (Suc skip) (c # cs) = remove_think_tags skip cs"
| "remove_think_tags 0 (c # cs) =
     (if lower (take 7 (c # cs)) = ''<think>'' then remove_think_tags 6 cs
      else if lower (take 8 (c # cs)) = ''</think>'' then remove_think_tags 7 cs
      else c # remove_think_tags 0 cs)"

text \<open>\<open>re.sub(r'\n{3,}', '\n\n', cleaned)\<close>; the first argument counts the newlines of the
  current run.\<close>

fun collapse_newlines :: "nat \<Rightarrow> string \<Rightarrow> string" where
  "collapse_newlines run [] = replicate (if 3 \<le> run then 2 else run) (CHR 0x0A)"
| "collapse_newlines run (c # cs) =
     (if c = CHR 0x0A then collapse_newlines (Suc run) cs
      else replicate (if 3 \<le> run then 2 else run) (CHR 0x0A) @ c # collapse_newlines 0 cs)"

definition clean_llm_response :: "string \<Rightarrow> string" where
  "clean_llm_response text =
     (if text = [] then text
      else strip (collapse_newlines 0 (remove_think_tags 0 (remove_think_blocks text))))"

subsection \<open>Model selection, retry and fallback\<close>

text \<open>
  The generation backend is opaque: \<open>backend m msgs n\<close> is the outcome of the backend call
  number \<open>n\<close> of an invocation (counted from 0) when it is sent to model \<open>m\<close> with the
  messages \<open>msgs\<close>; \<open>Inl e\<close> is the exception \<open>e\<close> it raises, \<open>Inr c\<close> the content it
  returns. Every pattern of failures is some such function. Backoff delays do not change
  results and are left out, and the construction of the chat model object is taken not to
  fail. The call log of an invocation lists the models of its backend calls, oldest first.
\<close>

datatype lc_message = SystemMessage string | HumanMessage string | AIMessage string

type_synonym backend = "string \<Rightarrow> lc_message list \<Rightarrow> nat \<Rightarrow> string + string"

datatype gateway_error =
    AllModelsFailed string
  | NoAvailableModels
  | IndexError

record llm_result =
  gw_content :: string
  gw_model_used :: string
  gw_success :: bool

text \<open>\<open>list.index\<close>: \<open>None\<close> stands for \<open>ValueError\<close>.\<close>

fun index_of :: "'a list \<Rightarrow> 'a \<Rightarrow> nat option" where
  "index_of [] x = None"
| "index_of (y # ys) x = (if x = y then Some 0 else map_option Suc (index_of ys x))"

definition get_next_fallback_model :: "string list \<Rightarrow> string \<Rightarrow> string option" where
  "get_next_fallback_model models current =
     (case index_of models current of
        Some current_idx \<Rightarrow> Some (models ! ((current_idx + 1) mod length models))
      | None \<Rightarrow> (if models \<noteq> [] then Some (models ! 0) else None))"

text \<open>
  \<open>_invoke_with_retry\<close> under \<open>stop_after_attempt(3)\<close>, retrying on every exception and
  re-raising the last one: \<open>retry_call\<close> is given the number of retries still allowed.
\<close>

fun retry_call ::
  "(nat \<Rightarrow> string + string) \<Rightarrow> string \<Rightarrow> nat \<Rightarrow> string list \<Rightarrow> (string + string) \<times> string list" where
  "retry_call call m 0 calls = (call (length calls), calls @ [m])"
| "retry_call call m (Suc k) calls =
     (case call (length calls) of
        Inr c \<Rightarrow> (Inr c, calls @ [m])
      | Inl e \<Rightarrow> retry_call call m k (calls @ [m]))"

definition invoke_with_retry ::
  "backend \<Rightarrow> string \<Rightarrow> lc_message list \<Rightarrow> string list \<Rightarrow> (string + string) \<times> string list" where
  "invoke_with_retry be m msgs calls = retry_call (be m msgs) m 2 calls"

text \<open>The conversion of the message dicts to LangChain messages.\<close>

definition to_lc_messages ::
  "string option \<Rightarrow> (string \<rightharpoonup> string) list \<Rightarrow> lc_message list" where
  "to_lc_messages system_prompt messages =
     (case system_prompt of
        Some p \<Rightarrow> (if p \<noteq> [] then [SystemMessage p] else [])
      | None \<Rightarrow> [])
     @ concat (map (\<lambda>msg.
         (let role = (case msg ''role'' of Some r \<Rightarrow> r | None \<Rightarrow> ''user'');
              content = (case msg ''content'' of Some c \<Rightarrow> c | None \<Rightarrow> '''')
          in if role = ''user'' then [HumanMessage content]
             else if role = ''assistant'' then [AIMessage content]
             else if role = ''system'' then [SystemMessage content]
             else [])) messages)"

text \<open>The \<open>while len(models_tried) < len(self.models)\<close> loop of \<open>invoke\<close>.\<close>

function invoke_loop ::
  "string list \<Rightarrow> backend \<Rightarrow> lc_message list \<Rightarrow> string \<Rightarrow> string fset \<Rightarrow> string list
     \<Rightarrow> (gateway_error + llm_result) \<times> string list" where
  "invoke_loop models be msgs selected_model models_tried calls =
     (if fcard models_tried < length models
      then (let tried = finsert selected_model models_tried
            in case invoke_with_retry be selected_model msgs calls of
                 (Inr c, calls') \<Rightarrow>
                   (Inr \<lparr>gw_content = clean_llm_response c, gw_model_used = selected_model,
                         gw_success = True\<rparr>, calls')
               | (Inl e, calls') \<Rightarrow>
                   (case get_next_fallback_model models selected_model of
                      Some next_model \<Rightarrow>
                        (if next_model \<noteq> [] \<and> next_model |\<notin>| tried
                         then invoke_loop models be msgs next_model tried calls'
                         else (Inl (AllModelsFailed e), calls'))
                    | None \<Rightarrow> (Inl (AllModelsFailed e), calls')))
      else (Inl NoAvailableModels, calls))"
  by pat_completeness auto
termination
proof (relation "measure (\<lambda>(models, be, msgs, selected_model, models_tried, calls).
    2 * (length models - fcard models_tried) + (if selected_model |\<in>| models_tried then 1 else 0))")
  show "wf (measure (\<lambda>(models, be, msgs, selected_model, models_tried, calls).
    2 * (length models - fcard models_tried) + (if selected_model |\<in>| models_tried then 1 else 0)))"
    by simp
next
  fix models :: "string list" and be :: backend and msgs :: "lc_message list"
    and selected_model :: string and models_tried :: "string fset" and calls :: "string list"
    and tried x y e next_model
  assume a: "fcard models_tried < length models"
    and t: "tried = finsert selected_model models_tried"
    and n: "next_model \<noteq> [] \<and> next_model |\<notin>| tried"
  show "((models, be, msgs, next_model, tried, y),
         (models, be, msgs, selected_model, models_tried, calls))
        \<in> measure (\<lambda>(models, be, msgs, selected_model, models_tried, calls).
    2 * (length models - fcard models_tried) + (if selected_model |\<in>| models_tried then 1 else 0))"
  proof (cases "selected_model |\<in>| models_tried")
    case True
    then have "tried = models_tried" using t by auto
    with True n show ?thesis by simp
  next
    case False
    then have "fcard tried = Suc (fcard models_tried)"
      using t by (simp add: fcard_finsert_disjoint)
    with False n a show ?thesis by simp
  qed
qed

declare invoke_loop.simps [simp del]

text \<open>
  \<open>invoke\<close>. Without a usable \<open>model_name\<close> the model is \<open>random.choice(self.models)\<close>:
  the random draw is the argument \<open>choice\<close>, read modulo the pool size; on an empty pool
  \<open>random.choice\<close> raises \<open>IndexError\<close>. The second component of the result is the call log.
\<close>

definition select_model :: "string list \<Rightarrow> nat \<Rightarrow> string option \<Rightarrow> string option" where
  "select_model models choice model_name =
     (case model_name of
        Some m \<Rightarrow> if m \<noteq> [] then Some m
                  else if models = [] then None else Some (models ! (choice mod length models))
      | None \<Rightarrow> if models = [] then None else Some (models ! (choice mod length models)))"

definition invoke ::
  "string list \<Rightarrow> backend \<Rightarrow> nat \<Rightarrow> (string \<rightharpoonup> string) list \<Rightarrow> string option \<Rightarrow> string option
     \<Rightarrow> (gateway_error + llm_result) \<times> string list" where
  "invoke models be choice messages system_prompt model_name =
     (case select_model models choice model_name of
        None \<Rightarrow> (Inl IndexError, [])
      | Some selected_model \<Rightarrow>
          invoke_loop models be (to_lc_messages system_prompt messages) selected_model {||} [])"

section \<open>Retrieval pipeline\<close>

subsection \<open>Stores\<close>

text \<open>
  The chunk collection is the list of stored \<open>EmbeddingChunk\<close> documents in insertion
  order (the store-generated \<open>_id\<close> and \<open>created_at\<close> are left out). Embedding components
  are float64 values; the finite ones are real numbers, and they are represented by the
  reals they denote.
\<close>

record EmbeddingChunk =
  ec_document_id :: string
  ec_chunk_index :: int
  ec_chunk_text :: string
  ec_embedding :: "real list"

record DocumentModel =
  filename :: string
  raw_text :: string
  admin_corrections :: "(string \<times> string) list option"

datatype py_exception =
    GroqClientError gateway_error
  | InvalidId string
  | ShapeValueError
  | ValidationError

definition create_many :: "EmbeddingChunk list \<Rightarrow> EmbeddingChunk list \<Rightarrow> EmbeddingChunk list" where
  "create_many coll embeddings = (if embeddings = [] then coll else coll @ embeddings)"

definition get_by_document :: "EmbeddingChunk list \<Rightarrow> string \<Rightarrow> EmbeddingChunk list" where
  "get_by_document coll document_id =
     sort_key ec_chunk_index (filter (\<lambda>c. ec_document_id c = document_id) coll)"

text \<open>\<open>delete_by_document\<close> returns the remaining collection and the deleted count.\<close>

definition delete_by_document :: "EmbeddingChunk list \<Rightarrow> string \<Rightarrow> EmbeddingChunk list \<times> int" where
  "delete_by_document coll document_id =
     (filter (\<lambda>c. ec_document_id c \<noteq> document_id) coll,
      int (length (filter (\<lambda>c. ec_document_id c = document_id) coll)))"

text \<open>
  \<open>ObjectId(doc_id)\<close> on a string: a string of 24 characters is handed to
  \<open>bytes.fromhex\<close>, every other string raises \<open>InvalidId\<close>, and so does a string
  that \<open>bytes.fromhex\<close> refuses. \<open>bytes.fromhex\<close> reads pairs of hexadecimal digits of
  either case and skips ASCII whitespace (code points 9 to 13 and 32) before a pair and
  at the end; whitespace inside a pair, a lone digit and every other character are
  refused. \<open>fromhex\<close> returns the bytes read, written as lower-case hexadecimal digits,
  which is \<open>str\<close> of the resulting \<open>ObjectId\<close> and the key of the document store.
\<close>

definition is_hex_digit :: "char \<Rightarrow> bool" where
  "is_hex_digit c =
     (let n = (of_char c :: nat)
      in (48 \<le> n \<and> n \<le> 57) \<or> (65 \<le> n \<and> n \<le> 70) \<or> (97 \<le> n \<and> n \<le> 102))"

definition is_ascii_space :: "char \<Rightarrow> bool" where
  "is_ascii_space c = (let n = (of_char c :: nat) in (9 \<le> n \<and> n \<le> 13) \<or> n = 32)"

fun fromhex :: "string \<Rightarrow> string option" where
  "fromhex [] = Some []"
| "fromhex [c] = (if is_ascii_space c then Some [] else None)"
| "fromhex (c # d # cs) =
     (if is_ascii_space c then fromhex (d # cs)
      else if is_hex_digit c \<and> is_hex_digit d
      then (case fromhex cs of
              None \<Rightarrow> None
            | Some bs \<Rightarrow> Some (py_lower_char c # py_lower_char d # bs))
      else None)"

definition ObjectId :: "string \<Rightarrow> string option" where
  "ObjectId oid = (if length oid = 24 then fromhex oid else None)"

text \<open>
  \<open>DocumentRepository.get_by_id\<close> raises with \<open>ObjectId\<close> and otherwise returns what
  \<open>find_one\<close> finds under the identifier, a document or \<open>None\<close>.
\<close>

definition get_by_id ::
  "(string \<rightharpoonup> DocumentModel) \<Rightarrow> string \<Rightarrow> py_exception + DocumentModel option" where
  "get_by_id docs doc_id =
     (case ObjectId doc_id of
        None \<Rightarrow> Inl (InvalidId doc_id)
      | Some oid \<Rightarrow> Inr (docs oid))"

subsection \<open>Similarity search\<close>

text \<open>
  The similarity of two vectors is computed by numpy in float64 arithmetic:
  \<open>np.dot(q, e) / (np.linalg.norm(q) * np.linalg.norm(e) + 1e-8)\<close>. Each operation rounds,
  so the operations are parameters of the model: \<open>fl_dot\<close> and \<open>fl_norm\<close> are numpy's
  \<open>dot\<close> and \<open>linalg.norm\<close> on vectors of equal length, \<open>fl_mul\<close>, \<open>fl_add\<close> and \<open>fl_div\<close>
  the float64 product, sum and quotient, and \<open>fl_eps\<close> the float64 value of the literal
  \<open>1e-8\<close>. The model covers the computations whose values stay finite: an overflow to
  \<open>inf\<close> or a \<open>nan\<close> is outside it.
\<close>

record float_ops =
  fl_dot :: "real list \<Rightarrow> real list \<Rightarrow> real"
  fl_norm :: "real list \<Rightarrow> real"
  fl_mul :: "real \<Rightarrow> real \<Rightarrow> real"
  fl_add :: "real \<Rightarrow> real \<Rightarrow> real"
  fl_div :: "real \<Rightarrow> real \<Rightarrow> real"
  fl_eps :: real

definition cosine_similarity :: "float_ops \<Rightarrow> real list \<Rightarrow> real list \<Rightarrow> real" where
  "cosine_similarity np query_vec emb_vec =
     fl_div np (fl_dot np query_vec emb_vec)
       (fl_add np (fl_mul np (fl_norm np query_vec) (fl_norm np emb_vec)) (fl_eps np))"

text \<open>
  \<open>np.dot\<close> raises \<open>ValueError\<close> on vectors of different lengths. The sort is
  \<open>list.sort(key=..., reverse=True)\<close>, a stable sort by descending key; \<open>[:top_k]\<close> is a
  Python slice.
\<close>

definition similarity_search ::
  "float_ops \<Rightarrow> EmbeddingChunk list \<Rightarrow> string \<Rightarrow> real list \<Rightarrow> int
     \<Rightarrow> py_exception + EmbeddingChunk list" where
  "similarity_search np coll document_id query_embedding top_k =
     (let embeddings = get_by_document coll document_id
      in if embeddings = [] then Inr []
         else if list_ex (\<lambda>emb. length (ec_embedding emb) \<noteq> length query_embedding) embeddings
         then Inl ShapeValueError
         else (let similarities =
                     map (\<lambda>emb. (cosine_similarity np query_embedding (ec_embedding emb), emb))
                         embeddings;
                   ranked = sort_key (\<lambda>x. - fst x) similarities
               in Inr (map snd (py_slice ranked 0 top_k))))"

text \<open>
  Two instances of the arithmetic. \<open>exact_ops\<close> computes without rounding.
  \<open>float_ops_sound\<close> collects the properties of float64 arithmetic that keep the
  denominator positive: a norm is not negative, a product of non-negative values is not
  negative, and adding \<open>1e-8\<close> to a non-negative value gives at least \<open>1e-8\<close>, which
  is positive.
\<close>

definition dot :: "real list \<Rightarrow> real list \<Rightarrow> real" where
  "dot a b = sum_list (map2 (*) a b)"

definition linalg_norm :: "real list \<Rightarrow> real" where
  "linalg_norm a = sqrt (sum_list (map (\<lambda>x. x * x) a))"

definition exact_ops :: float_ops where
  "exact_ops =
     \<lparr>fl_dot = dot, fl_norm = linalg_norm, fl_mul = (*), fl_add = (+), fl_div = (/),
      fl_eps = 1 / 10 ^ 8\<rparr>"


subsection \<open>Indexing\<close>

text \<open>
  \<open>index_document\<close> returns the new collection and the chunk count; \<open>embedder\<close> is the
  embedding function, applied to every chunk by \<open>embed_texts\<close>.
\<close>

definition index_document ::
  "(string \<Rightarrow> real list) \<Rightarrow> EmbeddingChunk list \<Rightarrow> string \<Rightarrow> string
     \<Rightarrow> (EmbeddingChunk list \<times> int) option" where
  "index_document embedder coll document_id text =
     (let coll1 = fst (delete_by_document coll document_id)
      in case chunk_text text 500 50 of
           None \<Rightarrow> None
         | Some chunks \<Rightarrow>
             if chunks = [] then Some (coll1, 0)
             else (let embeddings = map embedder chunks;
                       embedding_chunks =
                         map (\<lambda>(idx, (ct, emb)).
                               \<lparr>ec_document_id = document_id, ec_chunk_index = int idx,
                                ec_chunk_text = ct, ec_embedding = emb\<rparr>)
                             (enumerate 0 (zip chunks embeddings))
                   in Some (create_many coll1 embedding_chunks, int (length embedding_chunks))))"

subsection \<open>Query\<close>

datatype py_value =
    PyNone
  | PyBool bool
  | PyInt int
  | PyStr string
  | PyStrList "string list"

datatype event = GatewayCall | ToolCall string

text \<open>
  The environment of the pipeline: the document store, the chunk collection, the
  embedding function, the float64 arithmetic, and the Gateway. \<open>llm env messages system_prompt\<close> is the outcome of
  \<open>groq_client.invoke(messages, system_prompt)\<close>, an exception or a result. Events record
  the Gateway and tool calls a computation makes. A result dict is the list of its
  items in insertion order; \<open>map_of\<close> looks a key up.
\<close>

record rag_env =
  documents :: "string \<rightharpoonup> DocumentModel"
  embeddings :: "EmbeddingChunk list"
  embed_text :: "string \<Rightarrow> real list"
  float64 :: float_ops
  llm :: "(string \<rightharpoonup> string) list \<Rightarrow> string option \<Rightarrow> gateway_error + llm_result"

definition nl :: string where
  "nl = [CHR 0x0A]"

definition dquote :: string where
  "dquote = [CHR 0x22]"

definition apos :: string where
  "apos = [CHR 0x27]"

text \<open>\<open>sep.join(xs)\<close>.\<close>

fun join :: "string \<Rightarrow> string list \<Rightarrow> string" where
  "join sep [] = []"
| "join sep [x] = x"
| "join sep (x # y # ys) = x @ sep @ join sep (y # ys)"

definition RAG_SYSTEM_PROMPT :: "string \<Rightarrow> string" where
  "RAG_SYSTEM_PROMPT context =
     ''You are an AI assistant specialized in answering questions about invoices.'' @ nl @
     ''You MUST answer based ONLY on the provided context from the invoice document.'' @ nl @
     ''If the information is not in the context, say '' @ dquote @
     ''This information is not available in the invoice.'' @ dquote @ nl @
     ''Do NOT make up information. Be precise and cite specific values from the invoice.'' @ nl @
     nl @
     ''Context from the invoice:'' @ nl @
     context @ nl @
     nl @
     ''Answer the user'' @ apos @ ''s question based solely on this context.''"

definition admin_corrections_context :: "(string \<times> string) list \<Rightarrow> string" where
  "admin_corrections_context corrections =
     nl @ nl @ ''---'' @ nl @ nl @
     ''IMPORTANT: Admin Corrections Applied to This Invoice'' @ nl @
     ''The following fields were manually corrected by an administrator:'' @ nl @
     join nl (map (\<lambda>(field, v). ''- '' @ field @ '': '' @ v) corrections) @ nl @
     nl @
     ''When answering questions about these fields, mention BOTH the original value from the document AND the corrected value from the admin. Format: '' @
     dquote @ ''The [field] in the document is [original], but an admin has corrected it to [corrected value].'' @
     dquote @ nl"

definition not_indexed_answer :: string where
  "not_indexed_answer =
     ''No relevant information found in this invoice. The document may not have been indexed yet.''"

text \<open>
  The system prompt that \<open>query\<close> builds from the retrieved chunks and the admin
  corrections of the document.
\<close>

definition rag_system_prompt :: "DocumentModel option \<Rightarrow> EmbeddingChunk list \<Rightarrow> string" where
  "rag_system_prompt document relevant_chunks =
     (let context = join (nl @ nl @ ''---'' @ nl @ nl) (map ec_chunk_text relevant_chunks);
          corrections =
            (case document of
               None \<Rightarrow> []
             | Some doc \<Rightarrow> (case admin_corrections doc of None \<Rightarrow> [] | Some cs \<Rightarrow> cs));
          context1 =
            (if corrections \<noteq> []
             then context @ admin_corrections_context corrections
             else context)
      in RAG_SYSTEM_PROMPT context1)"

definition query ::
  "'a rag_env_scheme \<Rightarrow> string \<Rightarrow> string \<Rightarrow> int
     \<Rightarrow> (py_exception + (string \<times> py_value) list) \<times> event list" where
  "query env document_id question top_k =
     (case get_by_id (documents env) document_id of
        Inl e \<Rightarrow> (Inl e, [])
      | Inr document \<Rightarrow>
          (let query_embedding = embed_text env question
           in case similarity_search (float64 env) (embeddings env) document_id
                     query_embedding top_k of
                Inl e \<Rightarrow> (Inl e, [])
              | Inr relevant_chunks \<Rightarrow>
                  if relevant_chunks = []
                  then (Inr [(''answer'', PyStr not_indexed_answer),
                             (''sources'', PyStrList []),
                             (''model_used'', PyNone)], [])
                  else (let system_prompt = rag_system_prompt document relevant_chunks
                        in case llm env [[''role'' \<mapsto> ''user'', ''content'' \<mapsto> question]]
                                  (Some system_prompt) of
                             Inl e \<Rightarrow> (Inl (GroqClientError e), [GatewayCall])
                           | Inr result \<Rightarrow>
                               (Inr
                                  [(''answer'', PyStr (gw_content result)),
                                   (''sources'',
                                      PyStrList (map (\<lambda>chunk. take 100 (ec_chunk_text chunk) @ ''...'')
                                                   relevant_chunks)),
                                   (''model_used'', PyStr (gw_model_used result)),
                                   (''chunks_used'', PyInt (int (length relevant_chunks))),
                                   (''has_admin_corrections'',
                                      (case document of
                                         None \<Rightarrow> PyNone
                                       | Some doc \<Rightarrow> PyBool (admin_corrections doc \<noteq> None)))],
                                [GatewayCall]))))"

text \<open>
  Specification vocabulary: the chunk documents one indexing call builds from the chunk
  texts, with the indices that \<open>enumerate\<close> gives them.
\<close>

definition fresh_chunks :: "(string \<Rightarrow> real list) \<Rightarrow> string \<Rightarrow> string list \<Rightarrow> EmbeddingChunk list" where
  "fresh_chunks embedder document_id chunks =
     map (\<lambda>(idx, ct). \<lparr>ec_document_id = document_id, ec_chunk_index = int idx,
                        ec_chunk_text = ct, ec_embedding = embedder ct\<rparr>)
         (enumerate 0 chunks)"


definition sample_env :: rag_env where
  "sample_env =
     \<lparr>documents = [''0123456789abcdef01234567'' \<mapsto>
          \<lparr>filename = ''acme.pdf'', raw_text = ''Invoice 17 from ACME'', admin_corrections = None\<rparr>],
      embeddings = [],
      embed_text = (\<lambda>s. [1, 0]),
      float64 = exact_ops,
      llm = (\<lambda>messages system_prompt.
               Inr \<lparr>gw_content = ''40 EUR'', gw_model_used = ''groq/compound'', gw_success = True\<rparr>)\<rparr>"

definition sample_indexed_env :: rag_env where
  "sample_indexed_env =
     sample_env\<lparr>embeddings :=
       [\<lparr>ec_document_id = ''0123456789abcdef01234567'', ec_chunk_index = 0,
         ec_chunk_text = ''Total due: 40 EUR'', ec_embedding = [0, 1]\<rparr>]\<rparr>"

section \<open>Intent orchestrator\<close>

subsection \<open>State and collaborators\<close>

text \<open>
  Characters beyond U+00FF in the messages of the source are written as their UTF-8
  bytes.
\<close>

definition sym_warning :: string where
  "sym_warning = [CHR 0xE2, CHR 0x9A, CHR 0xA0]"

definition sym_check :: string where
  "sym_check = [CHR 0xE2, CHR 0x9C, CHR 0x85]"

definition sym_tick :: string where
  "sym_tick = [CHR 0xE2, CHR 0x9C, CHR 0x93]"

definition sym_ballot_x :: string where
  "sym_ballot_x = [CHR 0xE2, CHR 0x9C, CHR 0x97]"

definition sym_cross :: string where
  "sym_cross = [CHR 0xE2, CHR 0x9D, CHR 0x8C]"

definition sym_vs16 :: string where
  "sym_vs16 = [CHR 0xEF, CHR 0xB8, CHR 0x8F]"

definition sym_speech :: string where
  "sym_speech = [CHR 0xF0, CHR 0x9F, CHR 0x92, CHR 0xAC]"

definition sym_chart :: string where
  "sym_chart = [CHR 0xF0, CHR 0x9F, CHR 0x93, CHR 0x8A]"

definition sym_clipboard :: string where
  "sym_clipboard = [CHR 0xF0, CHR 0x9F, CHR 0x93, CHR 0x8B]"

definition sym_outbox :: string where
  "sym_outbox = [CHR 0xF0, CHR 0x9F, CHR 0x93, CHR 0xA4]"

definition sym_inbox :: string where
  "sym_inbox = [CHR 0xF0, CHR 0x9F, CHR 0x93, CHR 0xA5]"

definition sym_wastebasket :: string where
  "sym_wastebasket = [CHR 0xF0, CHR 0x9F, CHR 0x97, CHR 0x91]"

text \<open>Truthiness of an \<open>Optional[str]\<close>, and \<open>a or b\<close> on such values.\<close>

definition truthy :: "string option \<Rightarrow> bool" where
  "truthy x = (case x of None \<Rightarrow> False | Some s \<Rightarrow> s \<noteq> [])"

definition py_or :: "string option \<Rightarrow> string option \<Rightarrow> string option" where
  "py_or a b = (if truthy a then a else b)"

text \<open>\<open>str(x)\<close> of an optional string, as an f-string prints it.\<close>

definition py_str :: "string option \<Rightarrow> string" where
  "py_str x = (case x of None \<Rightarrow> ''None'' | Some s \<Rightarrow> s)"

text \<open>\<open>str.upper\<close> on the code points below 256 whose upper case is below 256 as well.\<close>

definition py_upper_char :: "char \<Rightarrow> char" where
  "py_upper_char c =
     (let n = (of_char c :: nat)
      in if (97 \<le> n \<and> n \<le> 122) \<or> (224 \<le> n \<and> n \<le> 246) \<or> (248 \<le> n \<and> n \<le> 254)
         then char_of (n - 32) else c)"

definition upper :: "string \<Rightarrow> string" where
  "upper s = map py_upper_char s"

function str_nat :: "nat \<Rightarrow> string" where
  "str_nat n = (if n < 10 then [char_of (48 + n)] else str_nat (n div 10) @ [char_of (48 + n mod 10)])"
  by pat_completeness auto
termination
  by (relation "measure id") auto

definition str_int :: "int \<Rightarrow> string" where
  "str_int i = (if i < 0 then ''-'' @ str_nat (nat (- i)) else str_nat (nat i))"

text \<open>
  A value of a JSON object field as \<open>dict.get\<close> sees it: the key is absent, the value is
  \<open>null\<close>, or it is a value.
\<close>

datatype 'a jfield = Absent | Null | Val 'a

text \<open>
  The classifier's JSON object. Its fields, when present and not \<open>null\<close>, are taken to have
  the types the state declares for them: strings, and a flat dict of strings for the
  filters.
\<close>

record classification =
  c_intent :: "string jfield"
  c_document_id :: "string jfield"
  c_export_format :: "string jfield"
  c_export_filters :: "(string \<times> string) list jfield"

text \<open>
  The outcome of \<open>json.loads\<close>: \<open>JSONDecodeError\<close>, a value that is not an object (so that
  \<open>classification.get\<close> raises \<open>AttributeError\<close>), or an object.
\<close>

datatype json_result = JSONDecodeError | NotAnObject | JObject classification

text \<open>The uniform envelope of a tool collaborator: success with data, or failure with an error.\<close>

datatype 'a tool_result = Success 'a | Failure "string option"

record issue =
  severity :: string
  field :: string
  message :: string

record validation_data =
  vd_valid :: bool
  vd_issues :: "issue list"
  vd_needs_review :: bool
  vd_review_reason :: "string jfield"

record invoice_summary =
  inv_id :: "string option"
  inv_filename :: string
  inv_status :: string

text \<open>The \<open>invoice\<close> dict of \<open>get_invoice_details\<close>; the total is the text Python prints for it.\<close>

record invoice_details =
  det_filename :: "string option"
  det_status :: "string option"
  det_vendor :: "string option"
  det_invoice_number :: "string option"
  det_date :: "string option"
  det_total :: "string option"
  det_currency :: "string option"
  det_validation :: "(bool \<times> issue list) option"

record export_data =
  ex_download_url :: "string option"
  ex_invoice_count :: int

datatype tool_output =
    QueryOutput "(string \<times> py_value) list"
  | ListOutput "invoice_summary list tool_result"
  | DetailsOutput "invoice_details tool_result"

record AgentState =
  user_message :: string
  session_id :: string
  document_id :: "string option"
  intent :: "string option"
  target_document_id :: "string option"
  query_text :: "string option"
  export_format :: "string option"
  export_filters :: "(string \<times> string) list option"
  tool_name :: "string option"
  tool_args :: "(string \<times> string option) list"
  tool_result :: "tool_output option"
  response :: "string option"
  sources :: "string list"
  download_url :: "string option"
  error :: "string option"
  needs_clarification :: bool
  clarification_question :: "string option"
  model_used :: "string option"

text \<open>
  The environment of a turn: the pipeline's environment, \<open>json.loads\<close>, and the tool
  collaborators. A collaborator that is called inside a \<open>try\<close> block may raise: \<open>Inl msg\<close>
  is an exception whose \<open>str\<close> is \<open>msg\<close>. \<open>execute_tool\<close> of the validation server catches
  every exception itself and always returns an envelope.
\<close>

record orch_env = rag_env +
  json_loads :: "string \<Rightarrow> json_result"
  validate_invoice_tool :: "string option \<Rightarrow> validation_data tool_result"
  force_validate_tool :: "string option \<Rightarrow> string jfield tool_result"
  delete_document_service :: "string \<Rightarrow> bool"
  list_invoices_tool :: "string + invoice_summary list tool_result"
  get_invoice_details_tool :: "string \<Rightarrow> string + invoice_details tool_result"
  export_invoices_tool ::
    "string \<Rightarrow> string option \<Rightarrow> string option \<Rightarrow> string option \<Rightarrow> string + export_data tool_result"

text \<open>\<open>str(e)\<close> of the exceptions of the model (library wording abbreviated).\<close>

definition exception_str :: "py_exception \<Rightarrow> string" where
  "exception_str e =
     (case e of
        GroqClientError (AllModelsFailed last_error) \<Rightarrow>
          ''All models failed. Last error: '' @ last_error
      | GroqClientError NoAvailableModels \<Rightarrow> ''No available models to try''
      | GroqClientError IndexError \<Rightarrow> ''Cannot choose from an empty sequence''
      | InvalidId oid \<Rightarrow>
          apos @ oid @ apos @
          '' is not a valid ObjectId, it must be a 12-byte input or a 24-character hex string''
      | ShapeValueError \<Rightarrow> ''shapes not aligned''
      | ValidationError \<Rightarrow> ''validation error for AgentState'')"

subsection \<open>The classify node\<close>

definition INTENT_CLASSIFICATION_PROMPT :: "string \<Rightarrow> string \<Rightarrow> string" where
  "INTENT_CLASSIFICATION_PROMPT msg document_context =
     ''You are an intent classifier for an invoice management system.'' @ nl @
     ''Classify the user'' @ apos @ ''s message into one of these intents:'' @ nl @
     nl @
     ''- validate_invoice: User wants to validate an invoice (check for errors, verify correctness)'' @
     nl @
     ''- force_validate: User wants to force validate an invoice despite errors (admin override, mark as valid)'' @
     nl @
     ''- query_document: User is asking a question about a specific invoice'' @ apos @
     ''s content (e.g., '' @ dquote @ ''What is the total?'' @ dquote @ '', '' @ dquote @
     ''Who is the vendor?'' @ dquote @ '')'' @ nl @
     ''- list_documents: User wants to see a list of their invoices'' @ nl @
     ''- get_document_details: User wants details about a specific invoice'' @ nl @
     ''- delete_document: User wants to delete an invoice'' @ nl @
     ''- export_invoices: User wants to export/download invoices to CSV or Excel (e.g., '' @
     dquote @ ''Export all invoices'' @ dquote @ '', '' @ dquote @
     ''Download my invoices as Excel'' @ dquote @ '')'' @ nl @
     ''- general_chat: General conversation or questions not specific to invoice operations'' @
     nl @
     ''- unclear: The intent is not clear and needs clarification'' @ nl @
     nl @
     ''If the user mentions a specific invoice by ID or name, extract it.'' @ nl @
     ''For export requests, extract the format (csv/excel) and any filters (vendor, status, date).'' @
     nl @
     nl @
     ''Respond with JSON only:'' @ nl @
     ''{'' @ nl @
     ''    '' @ dquote @ ''intent'' @ dquote @ '': '' @ dquote @
     ''one of the intents above'' @ dquote @ '','' @ nl @
     ''    '' @ dquote @ ''document_id'' @ dquote @ '': '' @ dquote @
     ''extracted document ID if any, else null'' @ dquote @ '','' @ nl @
     ''    '' @ dquote @ ''export_format'' @ dquote @ '': '' @ dquote @
     ''csv or excel if export intent, else null'' @ dquote @ '','' @ nl @
     ''    '' @ dquote @ ''export_filters'' @ dquote @ '': {'' @ dquote @ ''vendor'' @
     dquote @ '': '' @ dquote @ ''vendor name if specified'' @ dquote @ '', '' @ dquote @
     ''status'' @ dquote @ '': '' @ dquote @ ''status if specified'' @ dquote @ ''},'' @
     nl @
     ''    '' @ dquote @ ''reasoning'' @ dquote @ '': '' @ dquote @ ''brief explanation'' @
     dquote @ nl @
     ''}'' @ nl @
     nl @
     ''User message: '' @
     msg @
     nl @
     ''Current document context: '' @
     document_context"

text \<open>First position at which \<open>sub\<close> occurs in \<open>s\<close> (\<open>str.find\<close>, \<open>None\<close> for \<open>-1\<close>).\<close>

fun find :: "string \<Rightarrow> string \<Rightarrow> nat option" where
  "find sub [] = (if sub = [] then Some 0 else None)"
| "find sub (c # cs) =
     (if startswith (c # cs) sub then Some 0 else map_option Suc (find sub cs))"

text \<open>\<open>s.split(sep)[0]\<close>, and \<open>s.split(sep)[1]\<close> for an \<open>s\<close> that contains \<open>sep\<close>.\<close>

definition split_0 :: "string \<Rightarrow> string \<Rightarrow> string" where
  "split_0 sep s = (case find sep s of None \<Rightarrow> s | Some i \<Rightarrow> take i s)"

definition split_1 :: "string \<Rightarrow> string \<Rightarrow> string" where
  "split_1 sep s =
     (case find sep s of None \<Rightarrow> [] | Some i \<Rightarrow> split_0 sep (drop (i + length sep) s))"

text \<open>\<open>re.search(r'\{[^{}]*\}', s, re.DOTALL)\<close>: the first brace pair with no brace inside.\<close>

fun brace_match :: "string \<Rightarrow> string option" where
  "brace_match [] = None"
| "brace_match (c # cs) =
     (if c = CHR ''{''
      then (let body = takeWhile (\<lambda>x. x \<noteq> CHR ''{'' \<and> x \<noteq> CHR ''}'') cs;
                rest = dropWhile (\<lambda>x. x \<noteq> CHR ''{'' \<and> x \<noteq> CHR ''}'') cs
            in case rest of
                 [] \<Rightarrow> brace_match cs
               | r # _ \<Rightarrow> if r = CHR ''}'' then Some (c # body @ [r]) else brace_match cs)
      else brace_match cs)"

definition extract_json :: "string \<Rightarrow> string" where
  "extract_json content =
     (let response_text =
            (if py_in ''```json'' content then split_0 ''```'' (split_1 ''```json'' content)
             else if py_in ''```'' content then split_0 ''```'' (split_1 ''```'' content)
             else content);
          response_text = strip response_text
      in case brace_match response_text of Some m \<Rightarrow> m | None \<Rightarrow> response_text)"

text \<open>The keyword heuristics used when \<open>json.loads\<close> raises \<open>JSONDecodeError\<close>.\<close>

definition keyword_fallback :: "string \<Rightarrow> classification" where
  "keyword_fallback msg =
     (let m = lower msg;
          only = (\<lambda>i. \<lparr>c_intent = Val i, c_document_id = Absent, c_export_format = Absent,
                       c_export_filters = Absent\<rparr>)
      in if py_in ''list'' m \<and> py_in ''invoice'' m then only ''list_documents''
         else if py_in ''export'' m \<or> py_in ''download'' m
         then \<lparr>c_intent = Val ''export_invoices'', c_document_id = Absent,
               c_export_format = Val (if py_in ''excel'' m then ''excel'' else ''csv''),
               c_export_filters = Absent\<rparr>
         else if py_in ''validate'' m then only ''validate_invoice''
         else if py_in ''delete'' m then only ''delete_document''
         else if py_in ''detail'' m \<or> py_in ''show'' m then only ''get_document_details''
         else only ''general_chat'')"

definition jfield_get :: "'a jfield \<Rightarrow> 'a option" where
  "jfield_get f = (case f of Val v \<Rightarrow> Some v | _ \<Rightarrow> None)"

definition jfield_get_default :: "'a jfield \<Rightarrow> 'a \<Rightarrow> 'a option" where
  "jfield_get_default f d = (case f of Absent \<Rightarrow> Some d | Null \<Rightarrow> None | Val v \<Rightarrow> Some v)"

definition classify_intent_node :: "'a orch_env_scheme \<Rightarrow> AgentState \<Rightarrow> AgentState \<times> event list" where
  "classify_intent_node env state =
     (let message_lower = lower (user_message state)
      in if py_in ''export'' message_lower
            \<or> (py_in ''download'' message_lower \<and> py_in ''invoice'' message_lower)
         then (state\<lparr>intent := Some ''export_invoices'',
                     export_format :=
                       Some (if py_in ''excel'' message_lower \<or> py_in ''xlsx'' message_lower
                             then ''excel'' else ''csv''),
                     export_filters := Some []\<rparr>, [])
         else (let document_context =
                     (case document_id state of
                        Some d \<Rightarrow> if d \<noteq> [] then ''User is viewing document: '' @ d
                                  else ''No specific document selected''
                      | None \<Rightarrow> ''No specific document selected'');
                   prompt = INTENT_CLASSIFICATION_PROMPT (user_message state) document_context
               in case llm env [[''role'' \<mapsto> ''user'', ''content'' \<mapsto> prompt]]
                         (Some ''You are a precise intent classifier. Respond only with valid JSON.'') of
                    Inl e \<Rightarrow> (state\<lparr>intent := Some ''general_chat'', error := None\<rparr>, [GatewayCall])
                  | Inr result \<Rightarrow>
                      (let response_text = extract_json (gw_content result);
                           loaded =
                             (case json_loads env response_text of
                                JSONDecodeError \<Rightarrow> JObject (keyword_fallback (user_message state))
                              | r \<Rightarrow> r)
                       in case loaded of
                            JObject classification \<Rightarrow>
                              (state\<lparr>intent := jfield_get_default (c_intent classification) ''general_chat'',
                                     target_document_id :=
                                       py_or (jfield_get (c_document_id classification)) (document_id state),
                                     export_format := jfield_get (c_export_format classification),
                                     export_filters := jfield_get_default (c_export_filters classification) [],
                                     model_used := Some (gw_model_used result)\<rparr>, [GatewayCall])
                          | _ \<Rightarrow> (state\<lparr>intent := Some ''general_chat'', error := None\<rparr>, [GatewayCall]))))"

subsection \<open>The handler nodes\<close>

text \<open>\<open>nonempty x\<close> is the string of a truthy \<open>Optional[str]\<close>.\<close>

definition nonempty :: "string option \<Rightarrow> string option" where
  "nonempty x = (case x of Some s \<Rightarrow> if s \<noteq> [] then Some s else None | None \<Rightarrow> None)"

definition format_issue_md :: "issue \<Rightarrow> string" where
  "format_issue_md i =
     ''- ['' @ severity i @ ''] **'' @ field i @ ''**: '' @ message i"

definition validation_node :: "'a orch_env_scheme \<Rightarrow> AgentState \<Rightarrow> AgentState \<times> event list" where
  "validation_node env state0 =
     (let state = state0\<lparr>tool_name := Some ''validate_invoice''\<rparr>
      in case nonempty (target_document_id state) of
           None \<Rightarrow>
             (state\<lparr>needs_clarification := True,
                    clarification_question := Some
          (''Which invoice would you like me to validate? Please provide the invoice ID or filename.'')\<rparr>, [])
         | Some d \<Rightarrow>
             (let state1 =
                    (case validate_invoice_tool env (Some d) of
                       Success data \<Rightarrow>
                         if vd_valid data
                         then state\<lparr>response := Some
          (sym_check @ '' **Invoice is valid!**'' @ nl @
          nl @
          ''No issues found with this invoice.'')\<rparr>
                         else (let issues_text = join nl (map format_issue_md (vd_issues data));
                                   found =
          sym_warning @ sym_vs16 @ '' **Issues found in invoice:**'' @ nl @
          nl @ issues_text
                               in state\<lparr>response := Some
                                    (if vd_needs_review data
                                     then found @
          nl @
          nl @
          ''**Manual review recommended:** '' @
                                          (case vd_review_reason data of
                                             Absent \<Rightarrow> ''Some aspects need human verification.''
                                           | Null \<Rightarrow> ''None''
                                           | Val reason \<Rightarrow> reason)
                                     else found)\<rparr>)
                     | Failure e \<Rightarrow> state\<lparr>error := e\<rparr>)
              in (state1\<lparr>tool_args := [(''document_id'', target_document_id state)]\<rparr>,
                  [ToolCall ''validate_invoice''])))"

definition force_validate_node :: "'a orch_env_scheme \<Rightarrow> AgentState \<Rightarrow> AgentState \<times> event list" where
  "force_validate_node env state0 =
     (let state = state0\<lparr>tool_name := Some ''force_validate_document''\<rparr>
      in case nonempty (target_document_id state) of
           None \<Rightarrow>
             (state\<lparr>needs_clarification := True,
                    clarification_question := Some
          (''Which invoice would you like me to force validate? Please provide the invoice ID.'')\<rparr>, [])
         | Some d \<Rightarrow>
             (case force_validate_tool env (Some d) of
                Success data_message \<Rightarrow>
                  (state\<lparr>response := Some
          (sym_check @ '' **Invoice force validated!**'' @ nl @
          nl @
                           (case data_message of
                              Absent \<Rightarrow> ''The invoice has been marked as valid.''
                            | Null \<Rightarrow> ''None''
                            | Val m \<Rightarrow> m))\<rparr>,
                   [ToolCall ''force_validate_document''])
              | Failure e \<Rightarrow> (state\<lparr>error := e\<rparr>, [ToolCall ''force_validate_document''])))"

text \<open>
  \<open>delete_document_node\<close> has no \<open>try\<close> block: the \<open>InvalidId\<close> that
  \<open>DocumentRepository.get_by_id\<close> raises leaves the node.
\<close>

definition delete_document_node ::
  "'a orch_env_scheme \<Rightarrow> AgentState \<Rightarrow> (py_exception + AgentState) \<times> event list" where
  "delete_document_node env state0 =
     (let state = state0\<lparr>tool_name := Some ''delete_document''\<rparr>
      in case nonempty (target_document_id state) of
           None \<Rightarrow>
             (Inr (state\<lparr>needs_clarification := True,
                         clarification_question := Some
          (''Which invoice would you like to delete? Please provide the invoice ID or filename.'')\<rparr>), [])
         | Some d \<Rightarrow>
             (case get_by_id (documents env) d of
                Inl e \<Rightarrow> (Inl e, [ToolCall ''DocumentRepository.get_by_id''])
              | Inr None \<Rightarrow>
                  (Inr (state\<lparr>error := Some ''Document not found''\<rparr>),
                   [ToolCall ''DocumentRepository.get_by_id''])
              | Inr (Some document) \<Rightarrow>
                  (if delete_document_service env d
                   then Inr (state\<lparr>response := Some
          (sym_wastebasket @ sym_vs16 @ '' **Invoice deleted!**'' @ nl @
          nl @
          ''The invoice '' @ apos @ filename document @
           apos @ '' has been permanently deleted.'')\<rparr>)
                   else Inr (state\<lparr>error := Some ''Failed to delete document''\<rparr>),
                   [ToolCall ''DocumentRepository.get_by_id'', ToolCall ''delete_document''])))"

definition dict_str :: "(string \<times> py_value) list \<Rightarrow> string \<Rightarrow> string option" where
  "dict_str d k = (case map_of d k of Some (PyStr s) \<Rightarrow> Some s | _ \<Rightarrow> None)"

definition dict_str_list :: "(string \<times> py_value) list \<Rightarrow> string \<Rightarrow> string list" where
  "dict_str_list d k = (case map_of d k of Some (PyStrList xs) \<Rightarrow> xs | _ \<Rightarrow> [])"

definition rag_query_node :: "'a orch_env_scheme \<Rightarrow> AgentState \<Rightarrow> AgentState \<times> event list" where
  "rag_query_node env state0 =
     (let state = state0\<lparr>tool_name := Some ''query_document''\<rparr>;
          doc_id = py_or (target_document_id state) (document_id state)
      in case nonempty doc_id of
           None \<Rightarrow>
             (state\<lparr>needs_clarification := True,
                    clarification_question := Some
          (''Which invoice are you asking about? Please select an invoice first.'')\<rparr>, [])
         | Some d \<Rightarrow>
             (case query env d (user_message state) 3 of
                (Inr result, ev) \<Rightarrow>
                  (state\<lparr>response := dict_str result ''answer'',
                         sources := dict_str_list result ''sources'',
                         model_used := dict_str result ''model_used'',
                         tool_result := Some (QueryOutput result)\<rparr>,
                   ToolCall ''query_document'' # ev)
              | (Inl e, ev) \<Rightarrow>
                  (state\<lparr>error := Some (exception_str e)\<rparr>, ToolCall ''query_document'' # ev)))"

definition format_invoice_line :: "invoice_summary \<Rightarrow> string" where
  "format_invoice_line invoice =
     ''- **'' @ inv_filename invoice @ ''** (ID: '' @ py_str (inv_id invoice) @ '') - Status: '' @ inv_status invoice"

definition list_documents_node :: "'a orch_env_scheme \<Rightarrow> AgentState \<Rightarrow> AgentState \<times> event list" where
  "list_documents_node env state0 =
     (let state = state0\<lparr>tool_name := Some ''list_invoices''\<rparr>
      in case list_invoices_tool env of
           Inl e \<Rightarrow> (state\<lparr>error := Some e\<rparr>, [ToolCall ''list_invoices''])
         | Inr result \<Rightarrow>
             (let state1 = state\<lparr>tool_result := Some (ListOutput result)\<rparr>
              in (case result of
                    Success invoices \<Rightarrow>
                      if invoices \<noteq> []
                      then state1\<lparr>response := Some
          (''Here are your uploaded invoices:'' @ nl @
          nl @
                            join nl (map format_invoice_line invoices))\<rparr>
                      else state1\<lparr>response := Some
          (''You don'' @ apos @
          ''t have any invoices uploaded yet. Use the upload feature to add invoices.'')\<rparr>
                  | Failure e \<Rightarrow>
                      state1\<lparr>error := Some (case e of Some m \<Rightarrow> m | None \<Rightarrow> ''Failed to list invoices'')\<rparr>,
                  [ToolCall ''list_invoices''])))"

definition format_issue_plain :: "issue \<Rightarrow> string" where
  "format_issue_plain i =
     ''- ['' @ severity i @ ''] '' @ field i @ '': '' @ message i @ nl"

definition format_details :: "invoice_details \<Rightarrow> string" where
  "format_details invoice =
     ''**Invoice Details**'' @ nl @
     nl @
     ''- **Filename:** '' @ py_str (det_filename invoice) @ nl @
     ''- **Status:** '' @ py_str (det_status invoice) @ nl @
     ''- **Vendor:** '' @ py_str (det_vendor invoice) @ nl @
     ''- **Invoice Number:** '' @ py_str (det_invoice_number invoice) @ nl @
     ''- **Date:** '' @ py_str (det_date invoice) @ nl @
     ''- **Total:** '' @ py_str (det_currency invoice) @ py_str (det_total invoice) @ nl @
     (case det_validation invoice of
        None \<Rightarrow> []
      | Some (valid, issues) \<Rightarrow>
          nl @ ''**Validation:** '' @
          (if valid then sym_tick @ '' Valid'' else sym_ballot_x @ '' Invalid'') @
          (if issues \<noteq> []
           then nl @ ''**Issues:**'' @ nl @ concat (map format_issue_plain issues)
           else []))"

definition get_details_node :: "'a orch_env_scheme \<Rightarrow> AgentState \<Rightarrow> AgentState \<times> event list" where
  "get_details_node env state0 =
     (let state = state0\<lparr>tool_name := Some ''get_invoice_details''\<rparr>;
          doc_id = py_or (target_document_id state) (document_id state)
      in case nonempty doc_id of
           None \<Rightarrow>
             (state\<lparr>needs_clarification := True,
                    clarification_question := Some
          (''Which invoice would you like details about? Please provide the invoice ID or select one.'')\<rparr>, [])
         | Some d \<Rightarrow>
             (case get_invoice_details_tool env d of
                Inl e \<Rightarrow> (state\<lparr>error := Some e\<rparr>, [ToolCall ''get_invoice_details''])
              | Inr result \<Rightarrow>
                  (let state1 = state\<lparr>tool_result := Some (DetailsOutput result)\<rparr>
                   in (case result of
                         Success invoice \<Rightarrow> state1\<lparr>response := Some (format_details invoice)\<rparr>
                       | Failure e \<Rightarrow>
                           state1\<lparr>error := Some (case e of Some m \<Rightarrow> m
                                                     | None \<Rightarrow> ''Failed to get invoice details'')\<rparr>,
                       [ToolCall ''get_invoice_details'']))))"

definition general_chat_system_prompt :: string where
  "general_chat_system_prompt =
     ''You are a helpful assistant for an invoice management system.'' @ nl @
     ''You can help users with:'' @ nl @
     ''- Uploading and managing invoices'' @ nl @
     ''- Validating invoice correctness'' @ nl @
     ''- Answering questions about specific invoices'' @ nl @
     ''- General questions about invoice management'' @ nl @
     nl @
     ''Be helpful, concise, and professional.''"

definition general_chat_fallback :: string where
  "general_chat_fallback =
     ''I'' @ apos @ ''m here to help you with invoice management. Here'' @ apos @
     ''s what I can do:'' @ nl @
     nl @
     sym_outbox @ '' **Upload Invoices** - Upload PDF invoices for processing'' @ nl @
     sym_check @ '' **Validate Invoices** - Check invoices for completeness and accuracy'' @
     nl @
     sym_speech @
     '' **Ask Questions** - Query specific invoice details using natural language'' @ nl @
     sym_clipboard @ '' **List Invoices** - View all your uploaded invoices'' @ nl @
     sym_chart @ '' **Export Data** - Export invoices to CSV or Excel'' @ nl @
     nl @
     ''Try asking something like '' @ dquote @ ''List all my invoices'' @ dquote @
     '' or upload a document to get started!''"

definition general_chat_node :: "'a orch_env_scheme \<Rightarrow> AgentState \<Rightarrow> AgentState \<times> event list" where
  "general_chat_node env state0 =
     (let state = state0\<lparr>tool_name := Some ''general_chat''\<rparr>
      in case llm env [[''role'' \<mapsto> ''user'', ''content'' \<mapsto> user_message state]]
                (Some general_chat_system_prompt) of
           Inr result \<Rightarrow>
             (state\<lparr>response := Some (gw_content result),
                    model_used := Some (gw_model_used result)\<rparr>, [GatewayCall])
         | Inl e \<Rightarrow>
             (state\<lparr>response := Some general_chat_fallback, error := None\<rparr>, [GatewayCall]))"

definition export_invoices_node :: "'a orch_env_scheme \<Rightarrow> AgentState \<Rightarrow> AgentState \<times> event list" where
  "export_invoices_node env state0 =
     (let state = state0\<lparr>tool_name := Some ''export_invoices''\<rparr>;
          fmt = (case nonempty (export_format state) of Some f \<Rightarrow> f | None \<Rightarrow> ''csv'');
          filters = (case export_filters state of Some fs \<Rightarrow> fs | None \<Rightarrow> [])
      in case export_invoices_tool env fmt (map_of filters ''vendor'') (map_of filters ''status'')
                (map_of filters ''date_range'') of
           Inr (Success result) \<Rightarrow>
             (state\<lparr>download_url := ex_download_url result,
                    response := Some
          (sym_inbox @ '' **Export Complete!**'' @ nl @
          nl @
          ''I'' @ apos @ ''ve exported **'' @
           str_int (ex_invoice_count result) @
           '' invoices** to '' @ upper fmt @
           '' format.'' @ nl @
          nl @
          ''**Download Link:** [Click here to download]('' @
           py_str (ex_download_url result) @
           '')'' @ nl @
          nl @
          ''Filters applied:'' @ nl @
           (case nonempty (map_of filters ''vendor'') of
              Some v \<Rightarrow> ''- Vendor: '' @ v | None \<Rightarrow> ''- All vendors'') @ nl @
           (case nonempty (map_of filters ''status'') of
              Some v \<Rightarrow> ''- Status: '' @ v | None \<Rightarrow> ''- All statuses'') @ nl)\<rparr>,
              [ToolCall ''export_invoices''])
         | Inr (Failure e) \<Rightarrow>
             (let err = (case e of Some m \<Rightarrow> m | None \<Rightarrow> ''Export failed'')
              in (state\<lparr>error := Some err,
                         response := Some (sym_cross @ '' Export failed: '' @ err)\<rparr>,
                  [ToolCall ''export_invoices'']))
         | Inl e \<Rightarrow>
             (state\<lparr>error := Some e, response := Some (sym_cross @ '' Export failed: '' @ e)\<rparr>,
              [ToolCall ''export_invoices'']))"

definition fallback_node :: "AgentState \<Rightarrow> AgentState" where
  "fallback_node state =
     (if needs_clarification state
      then state\<lparr>response :=
             py_or (clarification_question state)
               (Some (''I'' @ apos @ ''m not sure what you'' @ apos @
          ''re asking. Could you please clarify?''))\<rparr>
      else case nonempty (error state) of
             Some e \<Rightarrow>
               state\<lparr>response := Some
          (''I encountered an issue: '' @ e @
           ''. Please try again or rephrase your request.'')\<rparr>
           | None \<Rightarrow>
               state\<lparr>response := Some
          (''I'' @ apos @ ''m not sure how to help with that. You can ask me to:'' @ nl @
          ''- List your invoices'' @ nl @
          ''- Validate an invoice'' @ nl @
          ''- Answer questions about a specific invoice'' @ nl @
          ''- Get invoice details'')\<rparr>)"

definition response_node :: "AgentState \<Rightarrow> AgentState" where
  "response_node state =
     (if \<not> truthy (response state)
      then (case nonempty (error state) of
              Some e \<Rightarrow> state\<lparr>response := Some (''Sorry, something went wrong: '' @ e)\<rparr>
            | None \<Rightarrow>
                state\<lparr>response := Some ''I processed your request but have no response to show.''\<rparr>)
      else state)"

subsection \<open>The graph\<close>

datatype node =
    ClassifyIntent
  | Validation
  | ForceValidate
  | DeleteDocument
  | ExportInvoices
  | RagQuery
  | ListDocuments
  | GetDetails
  | GeneralChat
  | Fallback
  | Response

definition intent_to_node :: "(string \<times> node) list" where
  "intent_to_node =
     [(''validate_invoice'', Validation),
      (''force_validate'', ForceValidate),
      (''delete_document'', DeleteDocument),
      (''export_invoices'', ExportInvoices),
      (''query_document'', RagQuery),
      (''list_documents'', ListDocuments),
      (''get_document_details'', GetDetails),
      (''general_chat'', GeneralChat),
      (''unclear'', Fallback)]"

definition route_by_intent :: "AgentState \<Rightarrow> node" where
  "route_by_intent state =
     (if truthy (error state) \<or> needs_clarification state then Fallback
      else case intent state of
             None \<Rightarrow> Fallback
           | Some i \<Rightarrow> (case map_of intent_to_node i of Some n \<Rightarrow> n | None \<Rightarrow> Fallback))"

definition should_respond :: "AgentState \<Rightarrow> node" where
  "should_respond state =
     (if truthy (error state) \<or> needs_clarification state then Fallback else Response)"

text \<open>The edges of \<open>build_agent_graph\<close>; \<open>None\<close> is \<open>END\<close>.\<close>

definition next_node :: "node \<Rightarrow> AgentState \<Rightarrow> node option" where
  "next_node n state =
     (case n of
        ClassifyIntent \<Rightarrow> Some (route_by_intent state)
      | Fallback \<Rightarrow> Some Response
      | Response \<Rightarrow> None
      | _ \<Rightarrow> Some (should_respond state))"

definition run_node ::
  "'a orch_env_scheme \<Rightarrow> node \<Rightarrow> AgentState \<Rightarrow> (py_exception + AgentState) \<times> event list" where
  "run_node env n state =
     (case n of
        ClassifyIntent \<Rightarrow> apfst Inr (classify_intent_node env state)
      | Validation \<Rightarrow> apfst Inr (validation_node env state)
      | ForceValidate \<Rightarrow> apfst Inr (force_validate_node env state)
      | DeleteDocument \<Rightarrow> delete_document_node env state
      | ExportInvoices \<Rightarrow> apfst Inr (export_invoices_node env state)
      | RagQuery \<Rightarrow> apfst Inr (rag_query_node env state)
      | ListDocuments \<Rightarrow> apfst Inr (list_documents_node env state)
      | GetDetails \<Rightarrow> apfst Inr (get_details_node env state)
      | GeneralChat \<Rightarrow> apfst Inr (general_chat_node env state)
      | Fallback \<Rightarrow> (Inr (fallback_node state), [])
      | Response \<Rightarrow> (Inr (response_node state), []))"

definition node_rank :: "node \<Rightarrow> nat" where
  "node_rank n = (case n of ClassifyIntent \<Rightarrow> 3 | Fallback \<Rightarrow> 1 | Response \<Rightarrow> 0 | _ \<Rightarrow> 2)"

lemma next_node_rank: "next_node n state = Some n' \<Longrightarrow> node_rank n' < node_rank n"
  by (cases n)
    (auto simp: next_node_def node_rank_def route_by_intent_def should_respond_def
      intent_to_node_def split: option.splits if_splits)

text \<open>
  The graph is compiled over the pydantic model \<open>AgentState\<close>: the state a node has
  written is validated against the model when the next node or edge function reads it,
  and \<open>run_agent\<close> validates the final state with \<open>AgentState(**final_state)\<close>. Of the
  fields a node can write, two can leave their declared type: \<open>intent\<close>, a
  \<open>Literal\<close> of nine values or \<open>None\<close>, and \<open>export_filters\<close>, a dict that is not
  \<open>Optional\<close>.
\<close>

definition valid_intents :: "string list" where
  "valid_intents =
     [''validate_invoice'', ''force_validate'', ''delete_document'', ''export_invoices'',
      ''query_document'', ''list_documents'', ''get_document_details'', ''general_chat'',
      ''unclear'']"

definition validate_state :: "AgentState \<Rightarrow> bool" where
  "validate_state state =
     ((case intent state of None \<Rightarrow> True | Some i \<Rightarrow> i \<in> set valid_intents) \<and>
      (case export_filters state of None \<Rightarrow> False | Some filters \<Rightarrow> True))"

text \<open>
  A run of the graph from node \<open>n\<close>: the final state, or the exception that left a node
  or the validation after it; the events; and the nodes visited, in order.
\<close>

function run_from ::
  "'a orch_env_scheme \<Rightarrow> node \<Rightarrow> AgentState
     \<Rightarrow> (py_exception + AgentState) \<times> event list \<times> node list" where
  "run_from env n state =
     (case run_node env n state of
        (Inl e, ev) \<Rightarrow> (Inl e, ev, [n])
      | (Inr state1, ev) \<Rightarrow>
          if \<not> validate_state state1 then (Inl ValidationError, ev, [n])
          else (case next_node n state1 of
                  None \<Rightarrow> (Inr state1, ev, [n])
                | Some n1 \<Rightarrow>
                    (case run_from env n1 state1 of
                       (r, ev1, path) \<Rightarrow> (r, ev @ ev1, n # path))))"
  by pat_completeness auto
termination
  by (relation "measure (\<lambda>(env, n, state). node_rank n)") (auto dest: next_node_rank)

declare run_from.simps [simp del]

definition initial_state :: "string \<Rightarrow> string \<Rightarrow> string option \<Rightarrow> AgentState" where
  "initial_state msg session doc =
     \<lparr>user_message = msg, session_id = session, document_id = doc, intent = None,
      target_document_id = None, query_text = None, export_format = None,
      export_filters = Some [], tool_name = None, tool_args = [], tool_result = None,
      response = None, sources = [], download_url = None, error = None,
      needs_clarification = False, clarification_question = None, model_used = None\<rparr>"

text \<open>\<open>run_agent\<close> logs an exception of the graph and raises it again.\<close>

definition run_agent ::
  "'a orch_env_scheme \<Rightarrow> string \<Rightarrow> string \<Rightarrow> string option
     \<Rightarrow> (py_exception + AgentState) \<times> event list \<times> node list" where
  "run_agent env msg session doc = run_from env ClassifyIntent (initial_state msg session doc)"

text \<open>Sample environments for closed instances: the classifier answers with fixed text.\<close>

definition sample_orch_env :: "string \<Rightarrow> json_result \<Rightarrow> orch_env" where
  "sample_orch_env reply parsed =
     \<lparr>documents = Map.empty,
      embeddings = [],
      embed_text = (\<lambda>s. [1, 0]),
      float64 = exact_ops,
      llm = (\<lambda>messages system_prompt.
               Inr \<lparr>gw_content = reply, gw_model_used = ''groq/compound'', gw_success = True\<rparr>),
      json_loads = (\<lambda>s. parsed),
      validate_invoice_tool = (\<lambda>d. Failure (Some ''Document not found'')),
      force_validate_tool = (\<lambda>d. Failure (Some ''Document not found'')),
      delete_document_service = (\<lambda>d. False),
      list_invoices_tool = Inr (Success []),
      get_invoice_details_tool = (\<lambda>d. Inr (Failure (Some ''Invoice not found''))),
      export_invoices_tool = (\<lambda>fmt vendor status date_range. Inr (Failure None))\<rparr>"

section \<open>Chunking: termination and coverage\<close>

lemma find_boundary_gt:
  "find_boundary w cs bs = Some off \<Longrightarrow> cs div 2 < off"
  by (induction bs) (auto simp: Let_def split: if_splits)

lemma chunk_end_progress: "start + 251 \<le> chunk_end text 500 start"
  by (auto simp: chunk_end_def Let_def split: option.splits dest!: find_boundary_gt)

lemma chunk_loop_spans:
  "\<exists>spans. chunk_loop text 500 50 start acc = Some (acc @ window_chunks text spans)
      \<and> overlapping_cover 50 (int (length text)) start spans"
proof (induction "nat (int (length text) - start)" arbitrary: start acc rule: less_induct)
  case less
  show ?case
  proof (cases "start < int (length text)")
    case False
    have "chunk_loop text 500 50 start acc = Some (acc @ window_chunks text [])"
      using False by (subst chunk_loop.simps) (simp add: window_chunks_def)
    moreover have "overlapping_cover 50 (int (length text)) start []"
      using False by simp
    ultimately show ?thesis by blast
  next
    case True
    define e where "e = chunk_end text 500 start"
    define c where "c = strip (py_slice text start e)"
    define acc' where "acc' = (if c \<noteq> [] then acc @ [c] else acc)"
    have prog: "start + 251 \<le> e"
      unfolding e_def by (rule chunk_end_progress)
    have step: "chunk_loop text 500 50 start acc = chunk_loop text 500 50 (e - 50) acc'"
      using True by (subst chunk_loop.simps) (simp add: e_def c_def acc'_def Let_def)
    have "nat (int (length text) - (e - 50)) < nat (int (length text) - start)"
      using True prog by simp
    from less[OF this, of acc'] obtain spans where
      r: "chunk_loop text 500 50 (e - 50) acc' = Some (acc' @ window_chunks text spans)"
      and o: "overlapping_cover 50 (int (length text)) (e - 50) spans"
      by blast
    have "acc' @ window_chunks text spans = acc @ window_chunks text ((start, e) # spans)"
      by (simp add: acc'_def c_def window_chunks_def)
    moreover have "overlapping_cover 50 (int (length text)) start ((start, e) # spans)"
      using True prog o by simp
    ultimately show ?thesis using step r by metis
  qed
qed

lemma span_of_position:
  "overlapping_cover ov n start spans \<Longrightarrow> 0 \<le> ov \<Longrightarrow> start \<le> p \<Longrightarrow> p < n \<Longrightarrow>
     \<exists>(s, e)\<in>set spans. start \<le> s \<and> s \<le> p \<and> p < e"
proof (induction spans arbitrary: start)
  case Nil
  then show ?case by simp
next
  case (Cons a spans)
  obtain s e where a: "a = (s, e)" by (cases a)
  show ?case
  proof (cases "p < e - ov")
    case True
    then show ?thesis using Cons.prems a by auto
  next
    case False
    with Cons.prems a have "overlapping_cover ov n (e - ov) spans" "e - ov \<le> p" by auto
    from Cons.IH[OF this(1) Cons.prems(2) this(2) Cons.prems(4)]
    obtain s' e' where m: "(s', e') \<in> set spans" "e - ov \<le> s'" "s' \<le> p" "p < e'" by auto
    have "start \<le> s'" using Cons.prems(1) a m(2) by simp
    with m show ?thesis by (intro bexI[of _ "(s', e')"]) auto
  qed
qed

lemma strip_occurrence:
  assumes "i < length w" "\<not> py_isspace (w ! i)"
  shows "\<exists>k\<le>i. i < k + length (strip w) \<and> take (length (strip w)) (drop k w) = strip w"
proof -
  define k where "k = length (takeWhile py_isspace w)"
  define u where "u = drop k w"
  define n where "n = length (takeWhile py_isspace (rev u))"
  have u: "dropWhile py_isspace w = u"
    by (simp add: u_def k_def dropWhile_eq_drop)
  have s: "strip w = take (length u - n) u"
    unfolding strip_def u by (simp add: dropWhile_eq_drop n_def rev_drop)
  have ki: "k \<le> i"
  proof (rule ccontr)
    assume "\<not> k \<le> i"
    then have "i < length (takeWhile py_isspace w)" by (simp add: k_def)
    then have "py_isspace (w ! i)"
      by (metis nth_mem set_takeWhileD takeWhile_nth)
    with assms show False by simp
  qed
  have lu: "length u = length w - k" by (simp add: u_def)
  have ui: "u ! (i - k) = w ! i" using ki assms by (simp add: u_def)
  have ik: "i - k < length u" using ki assms lu by simp
  have "i - k < length u - n"
  proof (rule ccontr)
    assume a: "\<not> i - k < length u - n"
    define j where "j = length u - 1 - (i - k)"
    have "j < n" using a ik by (simp add: j_def)
    then have "py_isspace (rev u ! j)"
      unfolding n_def by (metis nth_mem set_takeWhileD takeWhile_nth)
    moreover have "rev u ! j = u ! (i - k)"
      using ik by (simp add: j_def rev_nth)
    ultimately show False using ui assms by simp
  qed
  then have "i < k + length (strip w)" using s ki by simp
  moreover have "take (length (strip w)) (drop k w) = strip w"
    using s by (simp add: u_def)
  ultimately show ?thesis using ki by blast
qed


lemma take_drop_take:
  "k + l \<le> m \<Longrightarrow> take l (drop k (take m xs)) = take l (drop k xs)"
  by (simp add: drop_take min_def)

lemma covered_nonspace:
  assumes cover: "overlapping_cover 50 (int (length text)) 0 spans"
    and p: "p < length text" and ns: "\<not> py_isspace (text ! p)"
  shows "covered text (window_chunks text spans) p"
proof -
  from span_of_position[OF cover, of "int p"] p
  obtain s e where se: "(s, e) \<in> set spans" "0 \<le> s" "s \<le> int p" "int p < e"
    by auto
  define a where "a = nat s"
  define b where "b = min (nat e) (length text)"
  define w where "w = py_slice text s e"
  define c where "c = strip w"
  have a: "py_clip s (length text) = a" using se p by (simp add: py_clip_def a_def)
  have b: "py_clip e (length text) = b" using se by (simp add: py_clip_def b_def)
  have w: "w = take (b - a) (drop a text)"
    by (simp add: w_def py_slice_def a b)
  have ap: "a \<le> p" using se by (simp add: a_def)
  have pb: "p < b" using se p by (simp add: b_def)
  have "b \<le> length text" by (simp add: b_def)
  then have lw: "length w = b - a" by (simp add: w)
  have i: "p - a < length w" using ap pb lw by simp
  have wi: "w ! (p - a) = text ! p" using ap pb p by (simp add: w)
  from strip_occurrence[OF i] wi ns obtain k where
    k: "k \<le> p - a" "p - a < k + length c" "take (length c) (drop k w) = c"
    by (auto simp: c_def)
  have "c \<noteq> []" using k by auto
  then have cin: "c \<in> set (window_chunks text spans)"
    using se(1) by (force simp: window_chunks_def c_def w_def)
  have "length (take (length c) (drop k w)) = length c" by (simp only: k(3))
  then have "length c \<le> length (drop k w)" by simp
  then have "k + length c \<le> b - a" using lw k i by simp
  then have "take (length c) (drop k (drop a text)) = c"
    using k(3) by (simp add: w take_drop_take)
  then have "take (length c) (drop (a + k) text) = c" by (simp add: add.commute)
  moreover have "a + k \<le> p" "p < a + k + length c" using k ap by simp_all
  ultimately show ?thesis using cin unfolding covered_def by blast
qed

lemma strip_all_space:
  assumes "\<forall>c\<in>set w. py_isspace c"
  shows "strip w = []"
proof -
  have d: "dropWhile py_isspace w = []"
    using assms by simp
  show ?thesis unfolding strip_def d by simp
qed

lemma window_chunks_all_space:
  assumes "\<forall>c\<in>set text. py_isspace c"
  shows "window_chunks text spans = []"
proof -
  have "strip (py_slice text s e) = []" for s e
  proof (rule strip_all_space)
    show "\<forall>c\<in>set (py_slice text s e). py_isspace c"
      using assms by (auto simp: py_slice_def Let_def dest!: in_set_takeD in_set_dropD)
  qed
  then show ?thesis by (simp add: window_chunks_def split_def)
qed

lemma chunk_text_total: "\<exists>chunks. chunk_text text 500 50 = Some chunks"
  using chunk_loop_spans[of "text" 0 "[]"] by (auto simp: chunk_text_def)

text \<open>
  Claim C1, as the code has it. With the default parameters (chunk size 500, overlap 50) a
  text of at most 500 characters is returned as one chunk, unchanged (it is not trimmed).
  A longer text is cut into windows that start at position 0, each next window starting
  50 characters before the end of the previous one, until the end of the text is passed:
  every position of the text lies in a window. The returned chunks are the trimmed
  windows, all-whitespace windows left out, so every non-whitespace character of the
  text lies inside an occurrence of a returned chunk.
\<close>

theorem chunk_text_cover:
  "(int (length text) \<le> 500 \<longrightarrow> chunk_text text 500 50 = Some [text]) \<and>
   (500 < int (length text) \<longrightarrow>
      (\<exists>spans. chunk_text text 500 50 = Some (window_chunks text spans)
         \<and> overlapping_cover 50 (int (length text)) 0 spans
         \<and> (\<forall>p<length text. \<exists>(s, e)\<in>set spans. s \<le> int p \<and> int p < e)
         \<and> (\<forall>p<length text. \<not> py_isspace (text ! p) \<longrightarrow>
               covered text (window_chunks text spans) p)))"
proof (intro conjI impI)
  assume "int (length text) \<le> 500"
  then show "chunk_text text 500 50 = Some [text]" by (simp add: chunk_text_def)
next
  assume long: "500 < int (length text)"
  from chunk_loop_spans[of "text" 0 "[]"] obtain spans where
    r: "chunk_loop text 500 50 0 [] = Some (window_chunks text spans)"
    and o: "overlapping_cover 50 (int (length text)) 0 spans"
    by auto
  have "chunk_text text 500 50 = Some (window_chunks text spans)"
    using long r by (simp add: chunk_text_def)
  moreover have "\<exists>(s, e)\<in>set spans. s \<le> int p \<and> int p < e" if "p < length text" for p
    using span_of_position[OF o, of "int p"] that by auto
  moreover have "covered text (window_chunks text spans) p"
    if "p < length text" "\<not> py_isspace (text ! p)" for p
    using covered_nonspace[OF o that] .
  ultimately show "\<exists>spans. chunk_text text 500 50 = Some (window_chunks text spans)
         \<and> overlapping_cover 50 (int (length text)) 0 spans
         \<and> (\<forall>p<length text. \<exists>(s, e)\<in>set spans. s \<le> int p \<and> int p < e)
         \<and> (\<forall>p<length text. \<not> py_isspace (text ! p) \<longrightarrow>
               covered text (window_chunks text spans) p)"
    using o by blast
qed

theorem chunk_text_cover_witness:
  "int (length ''ab'') \<le> 500 \<and> chunk_text ''ab'' 500 50 = Some [''ab''] \<and>
   500 < int (length (replicate 501 (CHR ''a''))) \<and>
   (\<exists>spans. chunk_text (replicate 501 (CHR ''a'')) 500 50
        = Some (window_chunks (replicate 501 (CHR ''a'')) spans)
      \<and> overlapping_cover 50 (int (length (replicate 501 (CHR ''a'')))) 0 spans
      \<and> (\<forall>p<length (replicate 501 (CHR ''a'')). \<exists>(s, e)\<in>set spans. s \<le> int p \<and> int p < e)
      \<and> (\<forall>p<length (replicate 501 (CHR ''a'')).
            \<not> py_isspace (replicate 501 (CHR ''a'') ! p) \<longrightarrow>
            covered (replicate 501 (CHR ''a'')) (window_chunks (replicate 501 (CHR ''a'')) spans) p))"
  using chunk_text_cover[of "''ab''"] chunk_text_cover[of "replicate 501 (CHR ''a'')"]
  by simp

text \<open>
  A short text with leading whitespace comes back untrimmed, and a text of 501 spaces
  yields no chunk at all: whitespace at the edge of a window is not part of any chunk.
\<close>

theorem chunk_text_trim_cover_counterexample:
  "chunk_text '' a'' 500 50 = Some ['' a''] \<and> strip '' a'' = ''a'' \<and>
   chunk_text (replicate 501 (CHR '' '')) 500 50 = Some []"
proof -
  have sp: "py_isspace (CHR '' '')" by (simp add: py_isspace_def)
  have "strip '' a'' = ''a''" by (simp add: strip_def py_isspace_def)
  moreover have "chunk_text '' a'' 500 50 = Some ['' a'']" by (simp add: chunk_text_def)
  moreover have "chunk_text (replicate 501 (CHR '' '')) 500 50 = Some []"
  proof -
    obtain spans where
      "chunk_loop (replicate 501 (CHR '' '')) 500 50 0 []
         = Some ([] @ window_chunks (replicate 501 (CHR '' '')) spans)"
      using chunk_loop_spans[of "replicate 501 (CHR '' '')" 0 "[]"] by blast
    moreover have "window_chunks (replicate 501 (CHR '' '')) spans = []"
      by (rule window_chunks_all_space) (simp add: sp)
    ultimately show ?thesis by (simp add: chunk_text_def)
  qed
  ultimately show ?thesis by simp
qed

text \<open>
  Claim C10. With the default parameters \<open>chunk_text\<close> returns for every text: the next
  start position \<open>chunk_end - 50\<close> is strictly greater than the current one, because a
  boundary cut is accepted only past the midpoint 250 of the window.
\<close>

theorem chunk_text_terminates:
  "(\<exists>chunks. chunk_text text 500 50 = Some chunks)
   \<and> start < chunk_end text 500 start - 50
   \<and> (case find_boundary window 500 boundaries of Some off \<Rightarrow> 250 < off | None \<Rightarrow> True)"
proof (intro conjI)
  show "\<exists>chunks. chunk_text text 500 50 = Some chunks"
    using chunk_loop_spans[of "text" 0 "[]"] by (auto simp: chunk_text_def)
  show "start < chunk_end text 500 start - 50"
    using chunk_end_progress[of start "text"] by simp
  show "case find_boundary window 500 boundaries of Some off \<Rightarrow> 250 < off | None \<Rightarrow> True"
    by (auto split: option.splits dest: find_boundary_gt)
qed

section \<open>Gateway: bounded retry and fallback\<close>

lemma retry_call_calls:
  "\<exists>j. 1 \<le> j \<and> j \<le> Suc k \<and> snd (retry_call call m k calls) = calls @ replicate j m"
proof (induction k arbitrary: calls)
  case 0
  have "snd (retry_call call m 0 calls) = calls @ replicate 1 m" by simp
  then show ?case by (intro exI[of _ 1]) simp
next
  case (Suc k)
  show ?case
  proof (cases "call (length calls)")
    case (Inr c)
    then have "snd (retry_call call m (Suc k) calls) = calls @ replicate 1 m" by simp
    then show ?thesis by (intro exI[of _ 1]) simp
  next
    case (Inl e)
    from Suc[of "calls @ [m]"] obtain j where
      j: "1 \<le> j" "j \<le> Suc k" "snd (retry_call call m k (calls @ [m])) = (calls @ [m]) @ replicate j m"
      by blast
    have "snd (retry_call call m (Suc k) calls) = calls @ replicate (Suc j) m"
      using Inl j(3) by simp
    with j show ?thesis by (intro exI[of _ "Suc j"]) simp
  qed
qed

lemma retry_call_fail:
  "fst (retry_call call m k calls) = Inl e \<Longrightarrow>
     call (length calls + k) = Inl e \<and> snd (retry_call call m k calls) = calls @ replicate (Suc k) m"
proof (induction k arbitrary: calls)
  case 0
  then show ?case by simp
next
  case (Suc k)
  show ?case
  proof (cases "call (length calls)")
    case (Inr c)
    with Suc.prems show ?thesis by simp
  next
    case (Inl e')
    with Suc.prems have "fst (retry_call call m k (calls @ [m])) = Inl e" by simp
    from Suc.IH[OF this] Inl show ?thesis by (simp add: replicate_app_Cons_same)
  qed
qed

lemma retry_call_all_fail:
  "(\<forall>n. length calls \<le> n \<and> n \<le> length calls + k \<longrightarrow> isl (call n)) \<Longrightarrow>
     isl (fst (retry_call call m k calls))"
proof (induction k arbitrary: calls)
  case 0
  then show ?case by simp
next
  case (Suc k)
  have "isl (call (length calls))" using Suc.prems by simp
  then obtain e where e: "call (length calls) = Inl e" by (cases "call (length calls)") auto
  have "isl (fst (retry_call call m k (calls @ [m])))"
    by (rule Suc.IH) (use Suc.prems in auto)
  with e show ?case by simp
qed

lemma count_list_replicate_eq:
  "count_list (replicate j x) m = (if m = x then j else 0)"
  by (induction j) auto

lemma invoke_loop_attempts:
  "selected |\<notin>| tried \<Longrightarrow>
     count_list (snd (invoke_loop models be msgs selected tried calls)) m
       \<le> count_list calls m + (if m |\<in>| tried then 0 else 3)"
proof (induction models be msgs selected tried calls rule: invoke_loop.induct)
  case (1 models be msgs selected tried calls)
  show ?case
  proof (cases "fcard tried < length models")
    case False
    then show ?thesis by (subst invoke_loop.simps) simp
  next
    case True
    obtain r calls1 where rc: "invoke_with_retry be selected msgs calls = (r, calls1)"
      by (cases "invoke_with_retry be selected msgs calls")
    from retry_call_calls[of 2 "be selected msgs" selected calls] rc
    obtain j where j: "j \<le> 3" "calls1 = calls @ replicate j selected"
      by (auto simp: invoke_with_retry_def)
    have c1: "count_list calls1 m \<le> count_list calls m + (if m = selected then 3 else 0)"
      using j by (simp add: count_list_append count_list_replicate_eq)
    have base: "count_list calls1 m \<le> count_list calls m + (if m |\<in>| tried then 0 else 3)"
      using c1 "1.prems" by (auto split: if_splits)
    show ?thesis
    proof (cases r)
      case (Inr c)
      then show ?thesis using True rc base by (subst invoke_loop.simps) simp
    next
      case (Inl e)
      show ?thesis
      proof (cases "get_next_fallback_model models selected")
        case None
        then show ?thesis using True rc Inl base by (subst invoke_loop.simps) simp
      next
        case (Some next_model)
        show ?thesis
        proof (cases "next_model \<noteq> [] \<and> next_model |\<notin>| finsert selected tried")
          case False
          then show ?thesis using True rc Inl Some base by (subst invoke_loop.simps) auto
        next
          case nxt: True
          have step: "invoke_loop models be msgs selected tried calls
              = invoke_loop models be msgs next_model (finsert selected tried) calls1"
            using True rc Inl Some nxt by (subst invoke_loop.simps) simp
          have "count_list (snd (invoke_loop models be msgs next_model (finsert selected tried) calls1)) m
                 \<le> count_list calls1 m + (if m |\<in>| finsert selected tried then 0 else 3)"
            using "1.IH"[OF True refl rc[symmetric] Inl Some nxt] nxt by simp
          then show ?thesis using step c1 "1.prems" by (auto split: if_splits)
        qed
      qed
    qed
  qed
qed


lemma index_of_nth: "index_of xs x = Some i \<Longrightarrow> i < length xs \<and> xs ! i = x"
  by (induction xs arbitrary: i) (auto split: if_splits)

lemma next_fallback_in_pool:
  "nxt \<in> set models" if "get_next_fallback_model models current = Some nxt"
proof (cases "index_of models current")
  case None
  then show ?thesis
    using that by (auto simp: get_next_fallback_model_def split: if_splits)
next
  case (Some i)
  then have "models \<noteq> []" by (auto dest: index_of_nth)
  then have "(i + 1) mod length models < length models" by simp
  then have "models ! ((i + 1) mod length models) \<in> set models" by (rule nth_mem)
  then show ?thesis using that Some by (simp add: get_next_fallback_model_def)
qed

lemma fcard_le_length:
  assumes "fset A \<subseteq> set xs"
  shows "fcard A \<le> length xs"
proof -
  have "card (fset A) \<le> card (set xs)" using assms by (simp add: card_mono)
  also have "\<dots> \<le> length xs" by (rule card_length)
  finally show ?thesis by (simp add: fcard.rep_eq)
qed

lemma invoke_loop_all_fail:
  "\<forall>m\<in>set models. \<forall>n. isl (be m msgs n) \<Longrightarrow> selected \<in> set models \<Longrightarrow> fset tried \<subseteq> set models \<Longrightarrow> selected |\<notin>| tried \<Longrightarrow>
     \<exists>e calls'. invoke_loop models be msgs selected tried calls = (Inl (AllModelsFailed e), calls')
        \<and> calls' \<noteq> [] \<and> be (last calls') msgs (length calls' - 1) = Inl e"
proof (induction models be msgs selected tried calls rule: invoke_loop.induct)
  case (1 models be msgs selected tried calls)
  have "fset (finsert selected tried) \<subseteq> set models" using "1.prems" by auto
  then have "fcard (finsert selected tried) \<le> length models" by (rule fcard_le_length)
  then have lt: "fcard tried < length models"
    using "1.prems"(4) by (simp add: fcard_finsert_disjoint)
  obtain r calls1 where rc: "invoke_with_retry be selected msgs calls = (r, calls1)"
    by (cases "invoke_with_retry be selected msgs calls")
  have "isl (fst (retry_call (be selected msgs) selected 2 calls))"
    by (rule retry_call_all_fail) (use "1.prems" in auto)
  then obtain e where e: "r = Inl e"
    using rc by (cases r) (auto simp: invoke_with_retry_def)
  from retry_call_fail[of "be selected msgs" selected 2 calls e] rc e
  have le: "be selected msgs (length calls + 2) = Inl e"
    and c1: "calls1 = calls @ replicate 3 selected"
    by (auto simp: invoke_with_retry_def)
  have stop: "calls1 \<noteq> [] \<and> be (last calls1) msgs (length calls1 - 1) = Inl e"
    using le c1 by (simp add: numeral_3_eq_3)
  show ?case
  proof (cases "get_next_fallback_model models selected")
    case None
    then show ?thesis using lt rc e stop by (subst invoke_loop.simps) simp
  next
    case (Some next_model)
    show ?thesis
    proof (cases "next_model \<noteq> [] \<and> next_model |\<notin>| finsert selected tried")
      case False
      then show ?thesis using lt rc e Some stop by (subst invoke_loop.simps) auto
    next
      case nxt: True
      have step: "invoke_loop models be msgs selected tried calls
          = invoke_loop models be msgs next_model (finsert selected tried) calls1"
        using lt rc e Some nxt by (subst invoke_loop.simps) simp
      have "next_model \<in> set models" using Some by (rule next_fallback_in_pool)
      moreover have "fset (finsert selected tried) \<subseteq> set models" using "1.prems" by auto
      ultimately show ?thesis
        using "1.IH"[OF lt refl rc[symmetric] e Some nxt] nxt "1.prems"(1) step by simp
    qed
  qed
qed


lemma retry_call_first_success:
  "(\<forall>s<t. isl (call (length calls + s))) \<Longrightarrow> t \<le> k \<Longrightarrow> call (length calls + t) = Inr c \<Longrightarrow>
     retry_call call m k calls = (Inr c, calls @ replicate (Suc t) m)"
proof (induction k arbitrary: calls t)
  case 0
  then show ?case by simp
next
  case (Suc k)
  show ?case
  proof (cases t)
    case 0
    with Suc.prems show ?thesis by simp
  next
    case (Suc t')
    with Suc.prems have "isl (call (length calls))" by auto
    then obtain e where e: "call (length calls) = Inl e" by (cases "call (length calls)") auto
    have "retry_call call m k (calls @ [m]) = (Inr c, (calls @ [m]) @ replicate (Suc t') m)"
    proof (rule Suc.IH)
      show "\<forall>s<t'. isl (call (length (calls @ [m]) + s))"
        using Suc.prems(1) Suc by (auto simp: less_Suc_eq_0_disj)
      show "t' \<le> k" using Suc.prems(2) Suc by simp
      show "call (length (calls @ [m]) + t') = Inr c" using Suc.prems(3) Suc by simp
    qed
    with e Suc show ?thesis by (simp add: replicate_app_Cons_same)
  qed
qed

lemma retry_call_exhausted:
  assumes "\<forall>s<3. isl (call (length calls + s))"
  shows "\<exists>e. retry_call call m 2 calls = (Inl e, calls @ replicate 3 m)
           \<and> call (length calls + 2) = Inl e"
proof -
  have "isl (fst (retry_call call m 2 calls))"
  proof (rule retry_call_all_fail, intro allI impI)
    fix n assume n: "length calls \<le> n \<and> n \<le> length calls + 2"
    then obtain s where "n = length calls + s" "s < 3"
      by (metis add.commute le_Suc_ex add_le_cancel_left less_Suc_eq_le numeral_3_eq_3 numeral_2_eq_2 nat_add_left_cancel_le)
    with assms show "isl (call n)" by simp
  qed
  then obtain e where e: "fst (retry_call call m 2 calls) = Inl e"
    by (cases "fst (retry_call call m 2 calls)") auto
  from retry_call_fail[OF e] e show ?thesis
    by (cases "retry_call call m 2 calls") (simp add: numeral_3_eq_3)
qed

lemma invoke_loop_chain:
  "ms \<noteq> [] \<Longrightarrow> distinct ms \<Longrightarrow> [] \<notin> set ms \<Longrightarrow> set ms \<inter> fset tried = {} \<Longrightarrow>
   fcard tried + length ms \<le> length models \<Longrightarrow>
   (\<forall>j. Suc j < length ms \<longrightarrow> get_next_fallback_model models (ms ! j) = Some (ms ! Suc j)) \<Longrightarrow>
   (\<forall>j. Suc j < length ms \<longrightarrow> (\<forall>s<3. isl (be (ms ! j) msgs (length calls + 3 * j + s)))) \<Longrightarrow>
   t < 3 \<Longrightarrow>
   (\<forall>s<t. isl (be (last ms) msgs (length calls + 3 * (length ms - 1) + s))) \<Longrightarrow>
   be (last ms) msgs (length calls + 3 * (length ms - 1) + t) = Inr c \<Longrightarrow>
   invoke_loop models be msgs (hd ms) tried calls
     = (Inr \<lparr>gw_content = clean_llm_response c, gw_model_used = last ms, gw_success = True\<rparr>,
        calls @ concat (map (replicate 3) (butlast ms)) @ replicate (Suc t) (last ms))"
proof (induction ms arbitrary: tried calls)
  case Nil
  then show ?case by simp
next
  case (Cons x rest)
  have lt: "fcard tried < length models" using Cons.prems(5) by simp
  show ?case
  proof (cases rest)
    case Nil
    have "retry_call (be x msgs) x 2 calls = (Inr c, calls @ replicate (Suc t) x)"
      by (rule retry_call_first_success) (use Cons.prems Nil in auto)
    then show ?thesis using lt Nil
      by (subst invoke_loop.simps) (simp add: invoke_with_retry_def)
  next
    case (Cons y rest')
    have "\<forall>s<3. isl (be x msgs (length calls + s))"
      using Cons.prems(7) Cons by (auto dest: spec[of _ 0])
    from retry_call_exhausted[OF this, of x] obtain e where
      e: "retry_call (be x msgs) x 2 calls = (Inl e, calls @ replicate 3 x)" by blast
    have nxt: "get_next_fallback_model models x = Some y"
      using Cons.prems(6) Cons by (auto dest: spec[of _ 0])
    have y: "y \<noteq> []" "y |\<notin>| finsert x tried"
      using Cons.prems(2,3,4) Cons by auto
    have step: "invoke_loop models be msgs x tried calls
        = invoke_loop models be msgs y (finsert x tried) (calls @ replicate 3 x)"
      using lt e nxt y by (subst invoke_loop.simps) (simp add: invoke_with_retry_def)
    have xt: "x |\<notin>| tried" using Cons.prems(4) by auto
    have "invoke_loop models be msgs (hd rest) (finsert x tried) (calls @ replicate 3 x)
       = (Inr \<lparr>gw_content = clean_llm_response c, gw_model_used = last rest, gw_success = True\<rparr>,
          (calls @ replicate 3 x) @ concat (map (replicate 3) (butlast rest))
             @ replicate (Suc t) (last rest))"
    proof (rule Cons.IH)
      show "rest \<noteq> []" using Cons by simp
      show "distinct rest" using Cons.prems(2) by simp
      show "[] \<notin> set rest" using Cons.prems(3) by simp
      show "set rest \<inter> fset (finsert x tried) = {}" using Cons.prems(2,4) by auto
      show "fcard (finsert x tried) + length rest \<le> length models"
        using Cons.prems(5) xt by (simp add: fcard_finsert_disjoint)
      show "\<forall>j. Suc j < length rest \<longrightarrow>
              get_next_fallback_model models (rest ! j) = Some (rest ! Suc j)"
        using Cons.prems(6) by (auto dest: spec[of _ "Suc j" for j])
      show "\<forall>j. Suc j < length rest \<longrightarrow>
              (\<forall>s<3. isl (be (rest ! j) msgs (length (calls @ replicate 3 x) + 3 * j + s)))"
      proof (intro allI impI)
        fix j s :: nat assume "Suc j < length rest" "s < 3"
        with Cons.prems(7)[rule_format, of "Suc j" s]
        show "isl (be (rest ! j) msgs (length (calls @ replicate 3 x) + 3 * j + s))"
          by (simp add: add.assoc)
      qed
      show "t < 3" by (rule Cons.prems(8))
      show "\<forall>s<t. isl (be (last rest) msgs
                (length (calls @ replicate 3 x) + 3 * (length rest - 1) + s))"
        using Cons.prems(9) Cons by (simp add: add.assoc)
      show "be (last rest) msgs (length (calls @ replicate 3 x) + 3 * (length rest - 1) + t) = Inr c"
        using Cons.prems(10) Cons by (simp add: add.assoc)
    qed
    then show ?thesis using step Cons by simp
  qed
qed


lemma index_of_distinct: "distinct xs \<Longrightarrow> i < length xs \<Longrightarrow> index_of xs (xs ! i) = Some i"
proof (induction xs arbitrary: i)
  case Nil
  then show ?case by simp
next
  case (Cons x xs)
  show ?case
  proof (cases i)
    case 0
    then show ?thesis by simp
  next
    case (Suc i')
    with Cons.prems have "i' < length xs" "x \<notin> set xs" "distinct xs" by auto
    then have "xs ! i' \<noteq> x" "index_of xs (xs ! i') = Some i'"
      using Cons.IH by (auto dest: nth_mem)
    with Suc show ?thesis by simp
  qed
qed

lemma next_fallback_distinct:
  "distinct models \<Longrightarrow> i < length models \<Longrightarrow>
     get_next_fallback_model models (models ! i) = Some (models ! (Suc i mod length models))"
  by (simp add: get_next_fallback_model_def index_of_distinct)

lemma chain_in_pool:
  assumes "ms \<noteq> []" "hd ms \<in> set models"
    and "\<forall>j. Suc j < length ms \<longrightarrow> get_next_fallback_model models (ms ! j) = Some (ms ! Suc j)"
  shows "set ms \<subseteq> set models"
proof -
  have "ms ! j \<in> set models" if "j < length ms" for j
    using that
  proof (induction j)
    case 0
    then show ?case using assms(1,2) by (simp add: hd_conv_nth)
  next
    case (Suc j)
    then have "get_next_fallback_model models (ms ! j) = Some (ms ! Suc j)" using assms(3) by simp
    then show ?case by (rule next_fallback_in_pool)
  qed
  then show ?thesis by (auto simp: in_set_conv_nth)
qed

lemma chain_length:
  assumes "set ms \<subseteq> set models" "distinct ms"
  shows "length ms \<le> length models"
proof -
  have "length ms = card (set ms)" using assms(2) by (simp add: distinct_card)
  also have "\<dots> \<le> card (set models)" using assms(1) by (simp add: card_mono)
  also have "\<dots> \<le> length models" by (rule card_length)
  finally show ?thesis .
qed

lemma invoke_loop_chain_fail:
  "ms \<noteq> [] \<Longrightarrow> distinct ms \<Longrightarrow> [] \<notin> set ms \<Longrightarrow> set ms \<inter> fset tried = {} \<Longrightarrow>
   fcard tried + length ms \<le> length models \<Longrightarrow>
   (\<forall>j. Suc j < length ms \<longrightarrow> get_next_fallback_model models (ms ! j) = Some (ms ! Suc j)) \<Longrightarrow>
   (\<forall>j<length ms. \<forall>s<3. isl (be (ms ! j) msgs (length calls + 3 * j + s))) \<Longrightarrow>
   (case get_next_fallback_model models (last ms) of
      None \<Rightarrow> True
    | Some nx \<Rightarrow> nx = [] \<or> nx \<in> set ms \<or> nx |\<in>| tried) \<Longrightarrow>
   \<exists>e. invoke_loop models be msgs (hd ms) tried calls
          = (Inl (AllModelsFailed e), calls @ concat (map (replicate 3) ms))
      \<and> be (last ms) msgs (length calls + 3 * (length ms - 1) + 2) = Inl e"
proof (induction ms arbitrary: tried calls)
  case Nil
  then show ?case by simp
next
  case (Cons x rest)
  have lt: "fcard tried < length models" using Cons.prems(5) by simp
  have "\<forall>s<3. isl (be x msgs (length calls + s))"
    using Cons.prems(7) by (auto dest: spec[of _ 0])
  from retry_call_exhausted[OF this, of x] obtain e where
    e: "retry_call (be x msgs) x 2 calls = (Inl e, calls @ replicate 3 x)"
    and le: "be x msgs (length calls + 2) = Inl e" by blast
  show ?case
  proof (cases rest)
    case Nil
    have "invoke_loop models be msgs x tried calls = (Inl (AllModelsFailed e), calls @ replicate 3 x)"
      using lt e Cons.prems(8) Nil
      by (subst invoke_loop.simps) (auto simp: invoke_with_retry_def split: option.splits)
    with le Nil show ?thesis by simp
  next
    case (Cons y rest')
    have nxt: "get_next_fallback_model models x = Some y"
      using Cons.prems(6) Cons by (auto dest: spec[of _ 0])
    have y: "y \<noteq> []" "y |\<notin>| finsert x tried"
      using Cons.prems(2,3,4) Cons by auto
    have step: "invoke_loop models be msgs x tried calls
        = invoke_loop models be msgs y (finsert x tried) (calls @ replicate 3 x)"
      using lt e nxt y by (subst invoke_loop.simps) (simp add: invoke_with_retry_def)
    have xt: "x |\<notin>| tried" using Cons.prems(4) by auto
    have "\<exists>e. invoke_loop models be msgs (hd rest) (finsert x tried) (calls @ replicate 3 x)
          = (Inl (AllModelsFailed e), (calls @ replicate 3 x) @ concat (map (replicate 3) rest))
      \<and> be (last rest) msgs (length (calls @ replicate 3 x) + 3 * (length rest - 1) + 2) = Inl e"
    proof (rule Cons.IH)
      show "rest \<noteq> []" using Cons by simp
      show "distinct rest" using Cons.prems(2) by simp
      show "[] \<notin> set rest" using Cons.prems(3) by simp
      show "set rest \<inter> fset (finsert x tried) = {}" using Cons.prems(2,4) by auto
      show "fcard (finsert x tried) + length rest \<le> length models"
        using Cons.prems(5) xt by (simp add: fcard_finsert_disjoint)
      show "\<forall>j. Suc j < length rest \<longrightarrow>
              get_next_fallback_model models (rest ! j) = Some (rest ! Suc j)"
        using Cons.prems(6) by (auto dest: spec[of _ "Suc j" for j])
      show "\<forall>j<length rest. \<forall>s<3. isl (be (rest ! j) msgs (length (calls @ replicate 3 x) + 3 * j + s))"
      proof (intro allI impI)
        fix j s :: nat assume "j < length rest" "s < 3"
        with Cons.prems(7)[rule_format, of "Suc j" s]
        show "isl (be (rest ! j) msgs (length (calls @ replicate 3 x) + 3 * j + s))"
          by (simp add: add.assoc)
      qed
      show "case get_next_fallback_model models (last rest) of
              None \<Rightarrow> True
            | Some nx \<Rightarrow> nx = [] \<or> nx \<in> set rest \<or> nx |\<in>| finsert x tried"
        using Cons.prems(8) Cons by (auto split: option.splits)
    qed
    then show ?thesis using step Cons by (simp add: add.assoc)
  qed
qed

lemma rotate_chain:
  assumes "distinct models" "models \<noteq> []" "i < length models"
  shows "\<forall>j. Suc j < length (rotate i models) \<longrightarrow>
     get_next_fallback_model models (rotate i models ! j) = Some (rotate i models ! Suc j)"
proof (intro allI impI)
  fix j assume j: "Suc j < length (rotate i models)"
  have "rotate i models ! j = models ! ((i + j) mod length models)"
    using j by (simp add: nth_rotate)
  moreover have "rotate i models ! Suc j = models ! (Suc ((i + j) mod length models) mod length models)"
    using j by (simp add: nth_rotate mod_Suc_eq)
  moreover have "(i + j) mod length models < length models" using assms(2) by simp
  ultimately show "get_next_fallback_model models (rotate i models ! j) = Some (rotate i models ! Suc j)"
    using next_fallback_distinct[OF assms(1), of "(i + j) mod length models"] by simp
qed

lemma rotate_last_next:
  assumes "distinct models" "models \<noteq> []" "i < length models"
  shows "get_next_fallback_model models (last (rotate i models)) = Some (hd (rotate i models))"
proof -
  define n where "n = length models"
  define k where "k = (i + (n - 1)) mod n"
  have n0: "0 < n" using assms(2) by (simp add: n_def)
  have ne: "rotate i models \<noteq> []" using assms(2) by simp
  have "last (rotate i models) = rotate i models ! (n - 1)"
    using ne by (simp add: last_conv_nth n_def)
  also have "\<dots> = models ! k"
    using n0 by (simp add: nth_rotate n_def k_def)
  finally have l: "last (rotate i models) = models ! k" .
  have "hd (rotate i models) = rotate i models ! 0" using ne by (simp add: hd_conv_nth)
  also have "\<dots> = models ! (i mod n)" using n0 by (simp add: nth_rotate n_def)
  finally have h: "hd (rotate i models) = models ! i" using assms(3) by (simp add: n_def)
  have "Suc (i + (n - 1)) = i + n" using n0 by simp
  then have "Suc k mod n = (i + n) mod n"
    unfolding k_def by (simp only: mod_Suc_eq)
  also have "\<dots> = i" using assms(3) by (simp add: n_def)
  finally have sk: "Suc k mod n = i" .
  have kn: "k < length models" using n0 by (simp add: k_def n_def)
  have "get_next_fallback_model models (models ! k) = Some (models ! (Suc k mod length models))"
    using assms(1) kn by (rule next_fallback_distinct)
  then show ?thesis using l h sk by (simp add: n_def)
qed

text \<open>
  Claim C2. For \<open>invoke\<close> without an explicit model name, whatever the backend does. The
  backend's answer to a call depends on the model, the messages and the position of the
  call in the call log of the invocation; the log lists the model of every backend call.

  \<^item> No model is called more than 3 times in one invocation.
  \<^item> Fallback, for every number of failing models: let \<open>ms\<close> be a chain of distinct,
    non-empty model names that starts at the selected model, each next one being the
    fallback of the one before. If every model of the chain but the last fails on its
    three attempts (the model at position \<open>j\<close> is called at positions \<open>3j\<close>, \<open>3j+1\<close>,
    \<open>3j+2\<close> of the log) and the last one returns \<open>c\<close> on its attempt \<open>t\<close>, having
    failed before, then \<open>invoke\<close> returns the cleaned \<open>c\<close> with \<open>model_used\<close> the last
    model of the chain, after exactly three calls to each earlier model and \<open>t + 1\<close>
    calls to the last.
  \<^item> If every call to a pooled model fails, \<open>invoke\<close> raises \<open>GroqClientError\<close> "All
    models failed" carrying the error of the last backend call.
  \<^item> In a pool of distinct names the fallback of a model is the next model in pool
    order, wrapping; and if the names are also non-empty and every call fails, every
    model of the pool is called three times, in pool order from the selected one.
\<close>

theorem invoke_retry_fallback:
  "(\<forall>m. count_list (snd (invoke models be choice messages system_prompt None)) m \<le> 3) \<and>
   (models \<noteq> [] \<and> ms \<noteq> [] \<and> hd ms = models ! (choice mod length models)
      \<and> (\<forall>j. Suc j < length ms \<longrightarrow>
             get_next_fallback_model models (ms ! j) = Some (ms ! Suc j))
      \<and> distinct ms \<and> [] \<notin> set ms
      \<and> (\<forall>j. Suc j < length ms \<longrightarrow>
             (\<forall>s<3. isl (be (ms ! j) (to_lc_messages system_prompt messages) (3 * j + s))))
      \<and> t < 3
      \<and> (\<forall>s<t. isl (be (last ms) (to_lc_messages system_prompt messages)
                       (3 * (length ms - 1) + s)))
      \<and> be (last ms) (to_lc_messages system_prompt messages) (3 * (length ms - 1) + t) = Inr c
    \<longrightarrow> invoke models be choice messages system_prompt None
          = (Inr \<lparr>gw_content = clean_llm_response c, gw_model_used = last ms, gw_success = True\<rparr>,
             concat (map (replicate 3) (butlast ms)) @ replicate (Suc t) (last ms))) \<and>
   (models \<noteq> [] \<and> (\<forall>m\<in>set models. \<forall>n. isl (be m (to_lc_messages system_prompt messages) n))
    \<longrightarrow> (\<exists>e calls. invoke models be choice messages system_prompt None
                      = (Inl (AllModelsFailed e), calls)
            \<and> calls \<noteq> []
            \<and> be (last calls) (to_lc_messages system_prompt messages) (length calls - 1) = Inl e)) \<and>
   (distinct models \<and> i < length models
    \<longrightarrow> get_next_fallback_model models (models ! i) = Some (models ! (Suc i mod length models))) \<and>
   (models \<noteq> [] \<and> distinct models \<and> [] \<notin> set models
      \<and> (\<forall>m\<in>set models. \<forall>n. isl (be m (to_lc_messages system_prompt messages) n))
    \<longrightarrow> snd (invoke models be choice messages system_prompt None)
          = concat (map (replicate 3) (rotate (choice mod length models) models)))"
proof -
  define msgs where "msgs = to_lc_messages system_prompt messages"
  define sel where "sel = models ! (choice mod length models)"
  have inv: "invoke models be choice messages system_prompt None
      = invoke_loop models be msgs sel {||} []" if "models \<noteq> []"
    using that by (simp add: invoke_def select_model_def msgs_def sel_def)
  have sel_in: "sel \<in> set models" if "models \<noteq> []"
    using that by (simp add: sel_def)
  have 1: "count_list (snd (invoke models be choice messages system_prompt None)) m \<le> 3" for m
  proof (cases "models = []")
    case True
    then show ?thesis by (simp add: invoke_def select_model_def)
  next
    case False
    then show ?thesis
      using invoke_loop_attempts[of sel "{||}" models be msgs "[]" m] by (simp add: inv)
  qed
  have 2: "invoke models be choice messages system_prompt None
          = (Inr \<lparr>gw_content = clean_llm_response c, gw_model_used = last ms, gw_success = True\<rparr>,
             concat (map (replicate 3) (butlast ms)) @ replicate (Suc t) (last ms))"
    if h: "models \<noteq> [] \<and> ms \<noteq> [] \<and> hd ms = models ! (choice mod length models)
      \<and> (\<forall>j. Suc j < length ms \<longrightarrow>
             get_next_fallback_model models (ms ! j) = Some (ms ! Suc j))
      \<and> distinct ms \<and> [] \<notin> set ms
      \<and> (\<forall>j. Suc j < length ms \<longrightarrow>
             (\<forall>s<3. isl (be (ms ! j) (to_lc_messages system_prompt messages) (3 * j + s))))
      \<and> t < 3
      \<and> (\<forall>s<t. isl (be (last ms) (to_lc_messages system_prompt messages)
                       (3 * (length ms - 1) + s)))
      \<and> be (last ms) (to_lc_messages system_prompt messages) (3 * (length ms - 1) + t) = Inr c"
  proof -
    from h have m: "models \<noteq> []" and ne: "ms \<noteq> []" and hd: "hd ms = sel"
      and chain: "\<forall>j. Suc j < length ms \<longrightarrow>
             get_next_fallback_model models (ms ! j) = Some (ms ! Suc j)"
      and d: "distinct ms" and nn: "[] \<notin> set ms"
      and fail: "\<forall>j. Suc j < length ms \<longrightarrow> (\<forall>s<3. isl (be (ms ! j) msgs (3 * j + s)))"
      and t: "t < 3"
      and before: "\<forall>s<t. isl (be (last ms) msgs (3 * (length ms - 1) + s))"
      and ok: "be (last ms) msgs (3 * (length ms - 1) + t) = Inr c"
      unfolding msgs_def sel_def by blast+
    have "set ms \<subseteq> set models"
      using ne _ chain by (rule chain_in_pool) (simp add: hd sel_in m)
    then have len: "length ms \<le> length models" using d by (rule chain_length)
    have "invoke_loop models be msgs (hd ms) {||} []
       = (Inr \<lparr>gw_content = clean_llm_response c, gw_model_used = last ms, gw_success = True\<rparr>,
          [] @ concat (map (replicate 3) (butlast ms)) @ replicate (Suc t) (last ms))"
      by (rule invoke_loop_chain) (use ne d nn len chain fail t before ok in \<open>simp_all add: fcard_fempty\<close>)
    then show ?thesis using m hd by (simp add: inv)
  qed
  have 3: "\<exists>e calls. invoke models be choice messages system_prompt None
                      = (Inl (AllModelsFailed e), calls)
            \<and> calls \<noteq> []
            \<and> be (last calls) (to_lc_messages system_prompt messages) (length calls - 1) = Inl e"
    if h: "models \<noteq> [] \<and> (\<forall>m\<in>set models. \<forall>n. isl (be m (to_lc_messages system_prompt messages) n))"
  proof -
    have "\<forall>m\<in>set models. \<forall>n. isl (be m msgs n)" using h by (simp add: msgs_def)
    moreover have "sel \<in> set models" using h by (simp add: sel_in)
    ultimately have "\<exists>e calls'. invoke_loop models be msgs sel {||} [] = (Inl (AllModelsFailed e), calls')
        \<and> calls' \<noteq> [] \<and> be (last calls') msgs (length calls' - 1) = Inl e"
      by (intro invoke_loop_all_fail) simp_all
    with h show ?thesis by (simp add: inv msgs_def)
  qed
  have 4: "get_next_fallback_model models (models ! i) = Some (models ! (Suc i mod length models))"
    if "distinct models \<and> i < length models"
    using that by (simp add: next_fallback_distinct)
  have 5: "snd (invoke models be choice messages system_prompt None)
          = concat (map (replicate 3) (rotate (choice mod length models) models))"
    if h: "models \<noteq> [] \<and> distinct models \<and> [] \<notin> set models
      \<and> (\<forall>m\<in>set models. \<forall>n. isl (be m (to_lc_messages system_prompt messages) n))"
  proof -
    define r where "r = rotate (choice mod length models) models"
    from h have m: "models \<noteq> []" and d: "distinct models" and nn: "[] \<notin> set models"
      and fail: "\<forall>m\<in>set models. \<forall>n. isl (be m msgs n)"
      unfolding msgs_def by blast+
    have i: "choice mod length models < length models" using m by simp
    have rne: "r \<noteq> []" using m by (simp add: r_def)
    have hd: "hd r = sel"
      using m rne by (simp add: r_def sel_def hd_conv_nth nth_rotate)
    have "\<exists>e. invoke_loop models be msgs (hd r) {||} []
          = (Inl (AllModelsFailed e), [] @ concat (map (replicate 3) r))
      \<and> be (last r) msgs (length ([] :: string list) + 3 * (length r - 1) + 2) = Inl e"
    proof (rule invoke_loop_chain_fail)
      show "r \<noteq> []" by (rule rne)
      show "distinct r" using d by (simp add: r_def)
      show "[] \<notin> set r" using nn by (simp add: r_def)
      show "set r \<inter> fset {||} = {}" by simp
      show "fcard {||} + length r \<le> length models" by (simp add: r_def fcard_fempty)
      show "\<forall>j. Suc j < length r \<longrightarrow> get_next_fallback_model models (r ! j) = Some (r ! Suc j)"
        unfolding r_def using d m i by (rule rotate_chain)
      show "\<forall>j<length r. \<forall>s<3. isl (be (r ! j) msgs (length ([] :: string list) + 3 * j + s))"
      proof (intro allI impI)
        fix j s :: nat assume "j < length r"
        then have "r ! j \<in> set r" by (rule nth_mem)
        then have "r ! j \<in> set models" by (simp add: r_def)
        with fail show "isl (be (r ! j) msgs (length ([] :: string list) + 3 * j + s))" by simp
      qed
      have "get_next_fallback_model models (last r) = Some (hd r)"
        unfolding r_def using d m i by (rule rotate_last_next)
      then show "case get_next_fallback_model models (last r) of
                   None \<Rightarrow> True
                 | Some nx \<Rightarrow> nx = [] \<or> nx \<in> set r \<or> nx |\<in>| {||}"
        using rne by simp
    qed
    then show ?thesis using m hd by (auto simp: inv r_def)
  qed
  from 1 2 3 4 5 show ?thesis by blast
qed

theorem invoke_retry_fallback_witness:
  "invoke [''a'', ''b'', ''c''] (\<lambda>m msgs n. if m = ''c'' \<and> 6 < n then Inr ''ok'' else Inl ''down'')
      0 [] None None
     = (Inr \<lparr>gw_content = clean_llm_response ''ok'', gw_model_used = ''c'', gw_success = True\<rparr>,
        [''a'', ''a'', ''a'', ''b'', ''b'', ''b'', ''c'', ''c'']) \<and>
   (\<exists>e calls. invoke [''a'', ''b'', ''c''] (\<lambda>m msgs n. Inl ''down'') 1 [] None None
                  = (Inl (AllModelsFailed e), calls)
        \<and> calls \<noteq> [] \<and> Inl ''down'' = (Inl e :: string + string)) \<and>
   get_next_fallback_model [''a'', ''b'', ''c''] ''c'' = Some ''a'' \<and>
   snd (invoke [''a'', ''b'', ''c''] (\<lambda>m msgs n. Inl ''down'') 1 [] None None)
     = [''b'', ''b'', ''b'', ''c'', ''c'', ''c'', ''a'', ''a'', ''a'']"
proof -
  let ?pool = "[''a'', ''b'', ''c'']"
  let ?be = "\<lambda>(m :: string) (msgs :: lc_message list) (n :: nat).
               if m = ''c'' \<and> 6 < n then Inr ''ok'' else (Inl ''down'' :: string + string)"
  let ?down = "\<lambda>(m :: string) (msgs :: lc_message list) (n :: nat). (Inl ''down'' :: string + string)"
  note ok = invoke_retry_fallback[of ?pool ?be 0 "[]" None ?pool 1 "''ok''"]
  note down = invoke_retry_fallback[of ?pool ?down 1 "[]" None _ _ _ 2]
  have 1: "invoke ?pool ?be 0 [] None None
     = (Inr \<lparr>gw_content = clean_llm_response ''ok'', gw_model_used = ''c'', gw_success = True\<rparr>,
        [''a'', ''a'', ''a'', ''b'', ''b'', ''b'', ''c'', ''c''])"
  proof (rule trans[OF mp[OF ok[THEN conjunct2, THEN conjunct1]]])
    show "?pool \<noteq> [] \<and> ?pool \<noteq> [] \<and> hd ?pool = ?pool ! (0 mod length ?pool)
      \<and> (\<forall>j. Suc j < length ?pool \<longrightarrow>
             get_next_fallback_model ?pool (?pool ! j) = Some (?pool ! Suc j))
      \<and> distinct ?pool \<and> [] \<notin> set ?pool
      \<and> (\<forall>j. Suc j < length ?pool \<longrightarrow>
             (\<forall>s<3. isl (?be (?pool ! j) (to_lc_messages None []) (3 * j + s))))
      \<and> 1 < (3 :: nat)
      \<and> (\<forall>s<1. isl (?be (last ?pool) (to_lc_messages None []) (3 * (length ?pool - 1) + s)))
      \<and> ?be (last ?pool) (to_lc_messages None []) (3 * (length ?pool - 1) + 1) = Inr ''ok''"
      by (simp add: get_next_fallback_model_def less_Suc_eq_0_disj)
    show "(Inr \<lparr>gw_content = clean_llm_response ''ok'', gw_model_used = last ?pool, gw_success = True\<rparr>,
             concat (map (replicate 3) (butlast ?pool)) @ replicate (Suc 1) (last ?pool))
       = (Inr \<lparr>gw_content = clean_llm_response ''ok'', gw_model_used = ''c'', gw_success = True\<rparr>,
        [''a'', ''a'', ''a'', ''b'', ''b'', ''b'', ''c'', ''c''])"
      by (simp add: numeral_3_eq_3)
  qed
  have allfail: "?pool \<noteq> [] \<and> (\<forall>m\<in>set ?pool. \<forall>n. isl (?down m (to_lc_messages None []) n))"
    by simp
  have 2: "\<exists>e calls. invoke ?pool ?down 1 [] None None = (Inl (AllModelsFailed e), calls)
        \<and> calls \<noteq> [] \<and> Inl ''down'' = (Inl e :: string + string)"
    using mp[OF down[THEN conjunct2, THEN conjunct2, THEN conjunct1] allfail] by simp
  have d: "distinct ?pool \<and> 2 < length ?pool" by simp
  have i: "?pool ! (Suc 2 mod length ?pool) = ''a''" by code_simp
  have j: "?pool ! 2 = ''c''" by code_simp
  have 3: "get_next_fallback_model ?pool ''c'' = Some ''a''"
    using mp[OF down[THEN conjunct2, THEN conjunct2, THEN conjunct2, THEN conjunct1] d]
    unfolding i j .
  have allfail': "?pool \<noteq> [] \<and> distinct ?pool \<and> [] \<notin> set ?pool
       \<and> (\<forall>m\<in>set ?pool. \<forall>n. isl (?down m (to_lc_messages None []) n))"
    by simp
  have r: "concat (map (replicate 3) (rotate (1 mod length ?pool) ?pool))
      = [''b'', ''b'', ''b'', ''c'', ''c'', ''c'', ''a'', ''a'', ''a'']"
    by code_simp
  have 4: "snd (invoke ?pool ?down 1 [] None None)
     = [''b'', ''b'', ''b'', ''c'', ''c'', ''c'', ''a'', ''a'', ''a'']"
    using mp[OF down[THEN conjunct2, THEN conjunct2, THEN conjunct2, THEN conjunct2] allfail']
    unfolding r .
  from 1 2 3 4 show ?thesis by blast
qed

section \<open>Retrieval: ranking, indexing and query\<close>










lemma zip_map_self: "zip xs (map f xs) = map (\<lambda>x. (x, f x)) xs"
  by (induction xs) auto

lemma enumerate_map_pair:
  "map (\<lambda>(idx, (ct, emb)). g idx ct emb) (enumerate n (map (\<lambda>x. (x, f x)) xs))
     = map (\<lambda>(idx, ct). g idx ct (f ct)) (enumerate n xs)"
  by (induction xs arbitrary: n) auto

lemma fresh_chunks_document:
  "filter (\<lambda>c. ec_document_id c = d) (fresh_chunks embedder d chunks) = fresh_chunks embedder d chunks"
  "filter (\<lambda>c. ec_document_id c \<noteq> d) (fresh_chunks embedder d chunks) = []"
  by (auto simp: fresh_chunks_def filter_empty_conv intro!: filter_True)

lemma fresh_chunks_indices:
  "map ec_chunk_index (fresh_chunks embedder d chunks) = map int [0..<length chunks]"
proof -
  have "map ec_chunk_index (fresh_chunks embedder d chunks) = map (int \<circ> fst) (enumerate 0 chunks)"
    by (simp add: fresh_chunks_def split_def comp_def)
  also have "\<dots> = map int (map fst (enumerate 0 chunks))" by (simp only: map_map)
  also have "\<dots> = map int [0..<length chunks]" by (simp only: map_fst_enumerate) simp
  finally show ?thesis .
qed

lemma fresh_chunks_sorted: "sorted (map ec_chunk_index (fresh_chunks embedder d chunks))"
  unfolding fresh_chunks_indices by (simp add: sorted_map)

lemma fresh_chunks_distinct: "distinct (map ec_chunk_index (fresh_chunks embedder d chunks))"
  unfolding fresh_chunks_indices by (simp add: distinct_map inj_on_def)

text \<open>
  Claim C7. \<open>index_document\<close> returns for every text, and after it the chunks stored for
  the document are exactly the chunks built by this call from the chunk texts, in order,
  with the indices \<open>0 .. count - 1\<close>, all distinct, and nothing from an earlier indexing;
  the chunks of other documents are untouched and the returned value is the number of
  chunks stored.
\<close>

theorem index_document_replaces:
  "\<exists>chunks coll'. chunk_text text 500 50 = Some chunks
     \<and> index_document embedder coll d text = Some (coll', int (length chunks))
     \<and> filter (\<lambda>c. ec_document_id c = d) coll' = fresh_chunks embedder d chunks
     \<and> get_by_document coll' d = fresh_chunks embedder d chunks
     \<and> map ec_chunk_index (get_by_document coll' d) = map int [0..<length chunks]
     \<and> distinct (map ec_chunk_index (get_by_document coll' d))
     \<and> filter (\<lambda>c. ec_document_id c \<noteq> d) coll' = filter (\<lambda>c. ec_document_id c \<noteq> d) coll"
proof -
  from chunk_text_total obtain chunks where
    ch: "chunk_text text 500 50 = Some chunks"
    by blast
  define rest where "rest = filter (\<lambda>c. ec_document_id c \<noteq> d) coll"
  define coll' where "coll' = rest @ fresh_chunks embedder d chunks"
  have built: "map (\<lambda>(idx, (ct, emb)).
                 \<lparr>ec_document_id = d, ec_chunk_index = int idx, ec_chunk_text = ct, ec_embedding = emb\<rparr>)
               (enumerate 0 (zip chunks (map embedder chunks)))
             = fresh_chunks embedder d chunks"
    unfolding zip_map_self fresh_chunks_def by (rule enumerate_map_pair)
  have len: "length (fresh_chunks embedder d chunks) = length chunks"
    by (simp add: fresh_chunks_def)
  have idx: "index_document embedder coll d text = Some (coll', int (length chunks))"
  proof (cases "chunks = []")
    case True
    then show ?thesis
      using ch by (simp add: index_document_def delete_by_document_def coll'_def rest_def
          fresh_chunks_def)
  next
    case False
    then have "fresh_chunks embedder d chunks \<noteq> []" using len by auto
    moreover have "enumerate 0 (zip chunks (map embedder chunks)) \<noteq> []"
      using False by (cases chunks) auto
    ultimately show ?thesis
      using ch False
      by (simp add: index_document_def delete_by_document_def Let_def built create_many_def
          coll'_def rest_def len)
  qed
  have own: "filter (\<lambda>c. ec_document_id c = d) coll' = fresh_chunks embedder d chunks"
    by (simp add: coll'_def rest_def fresh_chunks_document)
  have others: "filter (\<lambda>c. ec_document_id c \<noteq> d) coll' = filter (\<lambda>c. ec_document_id c \<noteq> d) coll"
    by (simp add: coll'_def rest_def fresh_chunks_document)
  have got: "get_by_document coll' d = fresh_chunks embedder d chunks"
    unfolding get_by_document_def own by (rule sort_key_id_if_sorted) (rule fresh_chunks_sorted)
  show ?thesis
    using ch idx own got others fresh_chunks_indices[of embedder d chunks]
      fresh_chunks_distinct[of embedder d chunks]
    by (intro exI[of _ chunks] exI[of _ coll']) simp
qed

text \<open>
  \<open>ObjectId\<close> on strings of 24 characters: hexadecimal digits of either case are read,
  whitespace between the pairs is skipped, and a file name is refused.
\<close>

lemma ObjectId_examples:
  "ObjectId ''0123456789ABCDEF01234567'' = Some ''0123456789abcdef01234567''"
  "ObjectId ''00 11 22 33 44 55 66 77 '' = Some ''0011223344556677''"
  "ObjectId ''0 01122334455667788990ab'' = None"
  "ObjectId ''invoice-2024-03-march.pdf'' = None"
  by code_simp+

text \<open>
  Claim C3, as the code has it. Every result that \<open>query\<close> returns has the fields
  \<open>answer\<close>, \<open>sources\<close> and \<open>model_used\<close>, and it is returned for a document id that
  \<open>ObjectId\<close> accepts after \<open>similarity_search\<close> has retrieved a list of chunks. The
  result has the field \<open>chunks_used\<close> exactly when that list is not empty. When it is
  empty, the result is the fixed "not indexed" response, with no sources and no model,
  and no Gateway call is made. When it is not empty, the Gateway is called once, with
  the question and the system prompt built from the retrieved chunks, and the result
  carries the Gateway's content as \<open>answer\<close>, the first 100 characters of every
  retrieved chunk as \<open>sources\<close>, the Gateway's model as \<open>model_used\<close> and the number
  of retrieved chunks as \<open>chunks_used\<close>; and \<open>query\<close> does return then if the Gateway
  answers. For a document id that \<open>ObjectId\<close> accepts and that has no stored chunks,
  \<open>query\<close> returns the "not indexed" response and makes no Gateway call.
\<close>

theorem query_result_fields:
  "(fst (query env d question top_k) = Inr r \<longrightarrow>
      map_of r ''answer'' \<noteq> None \<and> map_of r ''sources'' \<noteq> None \<and> map_of r ''model_used'' \<noteq> None
      \<and> (\<exists>oid retrieved.
            ObjectId d = Some oid
            \<and> similarity_search (float64 env) (embeddings env) d (embed_text env question) top_k
                = Inr retrieved
            \<and> ((map_of r ''chunks_used'' \<noteq> None) = (retrieved \<noteq> []))
            \<and> (retrieved = [] \<longrightarrow>
                 r = [(''answer'', PyStr not_indexed_answer),
                      (''sources'', PyStrList []),
                      (''model_used'', PyNone)]
                 \<and> snd (query env d question top_k) = [])
            \<and> (retrieved \<noteq> [] \<longrightarrow>
                 (\<exists>result.
                    llm env [[''role'' \<mapsto> ''user'', ''content'' \<mapsto> question]]
                      (Some (rag_system_prompt (documents env oid) retrieved)) = Inr result
                    \<and> map_of r ''answer'' = Some (PyStr (gw_content result))
                    \<and> map_of r ''sources''
                        = Some (PyStrList (map (\<lambda>chunk. take 100 (ec_chunk_text chunk) @ ''...'')
                                             retrieved))
                    \<and> map_of r ''model_used'' = Some (PyStr (gw_model_used result))
                    \<and> map_of r ''chunks_used'' = Some (PyInt (int (length retrieved))))
                 \<and> snd (query env d question top_k) = [GatewayCall])))
   \<and> (ObjectId d = Some oid
        \<and> similarity_search (float64 env) (embeddings env) d (embed_text env question) top_k
            = Inr retrieved
        \<and> retrieved \<noteq> []
        \<and> llm env [[''role'' \<mapsto> ''user'', ''content'' \<mapsto> question]]
             (Some (rag_system_prompt (documents env oid) retrieved)) = Inr result
      \<longrightarrow> (\<exists>r'. query env d question top_k = (Inr r', [GatewayCall])))
   \<and> (ObjectId d \<noteq> None \<and> get_by_document (embeddings env) d = [] \<longrightarrow>
        query env d question top_k
          = (Inr [(''answer'', PyStr not_indexed_answer),
                  (''sources'', PyStrList []),
                  (''model_used'', PyNone)], []))"
proof -
  have 1: "map_of r ''answer'' \<noteq> None \<and> map_of r ''sources'' \<noteq> None \<and> map_of r ''model_used'' \<noteq> None
      \<and> (\<exists>oid retrieved.
            ObjectId d = Some oid
            \<and> similarity_search (float64 env) (embeddings env) d (embed_text env question) top_k
                = Inr retrieved
            \<and> ((map_of r ''chunks_used'' \<noteq> None) = (retrieved \<noteq> []))
            \<and> (retrieved = [] \<longrightarrow>
                 r = [(''answer'', PyStr not_indexed_answer),
                      (''sources'', PyStrList []),
                      (''model_used'', PyNone)]
                 \<and> snd (query env d question top_k) = [])
            \<and> (retrieved \<noteq> [] \<longrightarrow>
                 (\<exists>result.
                    llm env [[''role'' \<mapsto> ''user'', ''content'' \<mapsto> question]]
                      (Some (rag_system_prompt (documents env oid) retrieved)) = Inr result
                    \<and> map_of r ''answer'' = Some (PyStr (gw_content result))
                    \<and> map_of r ''sources''
                        = Some (PyStrList (map (\<lambda>chunk. take 100 (ec_chunk_text chunk) @ ''...'')
                                             retrieved))
                    \<and> map_of r ''model_used'' = Some (PyStr (gw_model_used result))
                    \<and> map_of r ''chunks_used'' = Some (PyInt (int (length retrieved))))
                 \<and> snd (query env d question top_k) = [GatewayCall]))"
    if ret: "fst (query env d question top_k) = Inr r"
  proof -
    from ret obtain oid where oid: "ObjectId d = Some oid"
      by (cases "ObjectId d") (auto simp: query_def get_by_id_def)
    then have g: "get_by_id (documents env) d = Inr (documents env oid)"
      by (simp add: get_by_id_def)
    from ret g obtain retrieved where
      s: "similarity_search (float64 env) (embeddings env) d (embed_text env question) top_k
            = Inr retrieved"
      by (cases "similarity_search (float64 env) (embeddings env) d (embed_text env question) top_k")
        (auto simp: query_def)
    show ?thesis
    proof (cases "retrieved = []")
      case True
      then have "query env d question top_k
          = (Inr [(''answer'', PyStr not_indexed_answer),
                  (''sources'', PyStrList []),
                  (''model_used'', PyNone)], [])"
        using g s by (simp add: query_def)
      with ret True oid s show ?thesis by auto
    next
      case False
      with ret g s obtain result where
        l: "llm env [[''role'' \<mapsto> ''user'', ''content'' \<mapsto> question]]
              (Some (rag_system_prompt (documents env oid) retrieved)) = Inr result"
        by (cases "llm env [[''role'' \<mapsto> ''user'', ''content'' \<mapsto> question]]
              (Some (rag_system_prompt (documents env oid) retrieved))")
          (auto simp: query_def)
      have "query env d question top_k
          = (Inr [(''answer'', PyStr (gw_content result)),
                  (''sources'',
                     PyStrList (map (\<lambda>chunk. take 100 (ec_chunk_text chunk) @ ''...'') retrieved)),
                  (''model_used'', PyStr (gw_model_used result)),
                  (''chunks_used'', PyInt (int (length retrieved))),
                  (''has_admin_corrections'',
                     (case documents env oid of
                        None \<Rightarrow> PyNone
                      | Some doc \<Rightarrow> PyBool (admin_corrections doc \<noteq> None)))],
             [GatewayCall])"
        using g s False l by (simp add: query_def)
      with ret False oid s l show ?thesis by auto
    qed
  qed
  have 2: "\<exists>r'. query env d question top_k = (Inr r', [GatewayCall])"
    if "ObjectId d = Some oid
        \<and> similarity_search (float64 env) (embeddings env) d (embed_text env question) top_k
            = Inr retrieved
        \<and> retrieved \<noteq> []
        \<and> llm env [[''role'' \<mapsto> ''user'', ''content'' \<mapsto> question]]
             (Some (rag_system_prompt (documents env oid) retrieved)) = Inr result"
    using that by (simp add: query_def get_by_id_def)
  have 3: "query env d question top_k
          = (Inr [(''answer'', PyStr not_indexed_answer),
                  (''sources'', PyStrList []),
                  (''model_used'', PyNone)], [])"
    if "ObjectId d \<noteq> None \<and> get_by_document (embeddings env) d = []"
    using that by (auto simp: query_def get_by_id_def similarity_search_def)
  from 1 2 3 show ?thesis by blast
qed

lemma sample_id_valid: "ObjectId ''0123456789abcdef01234567'' = Some ''0123456789abcdef01234567''"
  by code_simp

text \<open>The response for a document without chunks has no \<open>chunks_used\<close> field.\<close>

theorem query_result_fields_counterexample:
  "query sample_env ''0123456789abcdef01234567'' ''What is the total?'' 3
     = (Inr [(''answer'', PyStr not_indexed_answer),
             (''sources'', PyStrList []),
             (''model_used'', PyNone)], [])
   \<and> map_of [(''answer'', PyStr not_indexed_answer),
              (''sources'', PyStrList []),
              (''model_used'', PyNone)] ''chunks_used'' = None"
  using sample_id_valid
  by (simp add: query_def get_by_id_def similarity_search_def sample_env_def get_by_document_def)

theorem query_result_fields_witness:
  "query sample_env ''0123456789abcdef01234567'' ''What is the total?'' 3
        = (Inr [(''answer'', PyStr not_indexed_answer),
                (''sources'', PyStrList []),
                (''model_used'', PyNone)], [])
   \<and> map_of [(''answer'', PyStr not_indexed_answer),
              (''sources'', PyStrList []),
              (''model_used'', PyNone)] ''answer'' \<noteq> None
   \<and> (\<exists>r. query sample_indexed_env ''0123456789abcdef01234567'' ''What is the total?'' 3
              = (Inr r, [GatewayCall])
          \<and> map_of r ''answer'' = Some (PyStr ''40 EUR'')
          \<and> map_of r ''sources'' = Some (PyStrList [''Total due: 40 EUR...''])
          \<and> map_of r ''model_used'' = Some (PyStr ''groq/compound'')
          \<and> map_of r ''chunks_used'' = Some (PyInt 1))"
proof -
  let ?d = "''0123456789abcdef01234567''"
  let ?q = "''What is the total?''"
  let ?short = "[(''answer'', PyStr not_indexed_answer), (''sources'', PyStrList []),
                 (''model_used'', PyNone)]"
  let ?chunk = "\<lparr>ec_document_id = ?d, ec_chunk_index = 0,
                  ec_chunk_text = ''Total due: 40 EUR'', ec_embedding = [0, 1]\<rparr>"
  let ?res = "\<lparr>gw_content = ''40 EUR'', gw_model_used = ''groq/compound'', gw_success = True\<rparr>"
  have v: "ObjectId ?d = Some ?d" by code_simp
  have e: "get_by_document (embeddings sample_env) ?d = []"
    by (simp add: sample_env_def get_by_document_def)
  have q: "query sample_env ?d ?q 3 = (Inr ?short, [])"
    using query_result_fields[of sample_env ?d ?q 3] v e by simp
  have a: "map_of ?short ''answer'' \<noteq> None"
    using query_result_fields[of sample_env ?d ?q 3 ?short] q by simp
  have s: "similarity_search (float64 sample_indexed_env) (embeddings sample_indexed_env) ?d
             (embed_text sample_indexed_env ?q) 3 = Inr [?chunk]"
    by (simp add: similarity_search_def get_by_document_def sample_indexed_env_def sample_env_def
        py_slice_def py_clip_def)
  have l: "llm sample_indexed_env [[''role'' \<mapsto> ''user'', ''content'' \<mapsto> ''What is the total?'']] (Some p) = Inr ?res" for p
    by (simp add: sample_indexed_env_def sample_env_def)
  from query_result_fields[of sample_indexed_env ?d ?q 3 _ ?d "[?chunk]" ?res] v s l
  obtain r where r: "query sample_indexed_env ?d ?q 3 = (Inr r, [GatewayCall])"
    by auto
  then have "fst (query sample_indexed_env ?d ?q 3) = Inr r" by simp
  with query_result_fields[of sample_indexed_env ?d ?q 3 r] s l
  have "map_of r ''answer'' = Some (PyStr ''40 EUR'')
      \<and> map_of r ''sources'' = Some (PyStrList [''Total due: 40 EUR...''])
      \<and> map_of r ''model_used'' = Some (PyStr ''groq/compound'')
      \<and> map_of r ''chunks_used'' = Some (PyInt 1)"
    by auto
  with q a r show ?thesis by blast
qed

section \<open>Orchestrator: classification, clarification and routing\<close>

text \<open>
  Claim C5. When the lowercased message contains "export", or both "download" and
  "invoice", the classify node sets the intent \<open>export_invoices\<close>, the format "excel" if
  the message mentions "excel" or "xlsx" and "csv" otherwise, and empty filters; it makes
  no Gateway call (no event), whatever the environment is.
\<close>

theorem classify_fast_path:
  "py_in ''export'' (lower (user_message state))
     \<or> (py_in ''download'' (lower (user_message state))
         \<and> py_in ''invoice'' (lower (user_message state)))
   \<longrightarrow> classify_intent_node env state
         = (state\<lparr>intent := Some ''export_invoices'',
                   export_format :=
                     Some (if py_in ''excel'' (lower (user_message state))
                              \<or> py_in ''xlsx'' (lower (user_message state))
                           then ''excel'' else ''csv''),
                   export_filters := Some []\<rparr>, [])"
  by (simp add: classify_intent_node_def Let_def)

theorem classify_fast_path_witness:
  "py_in ''export'' (lower ''Please EXPORT all to xlsx'')
   \<and> classify_intent_node (sample_orch_env ''{}'' NotAnObject)
         (initial_state ''Please EXPORT all to xlsx'' ''s1'' None)
       = ((initial_state ''Please EXPORT all to xlsx'' ''s1'' None)
            \<lparr>intent := Some ''export_invoices'', export_format := Some ''excel'',
             export_filters := Some []\<rparr>, [])"
proof -
  have m: "user_message (initial_state ''Please EXPORT all to xlsx'' ''s1'' None)
      = ''Please EXPORT all to xlsx''"
    by (simp add: initial_state_def)
  have e: "py_in ''export'' (lower ''Please EXPORT all to xlsx'')" by code_simp
  have x: "py_in ''xlsx'' (lower ''Please EXPORT all to xlsx'')" by code_simp
  from classify_fast_path[of "initial_state ''Please EXPORT all to xlsx'' ''s1'' None"
      "sample_orch_env ''{}'' NotAnObject"] e x
  show ?thesis unfolding m by simp
qed

lemma nonempty_not_truthy: "\<not> truthy x \<Longrightarrow> nonempty x = None"
  by (auto simp: truthy_def nonempty_def split: option.splits)

text \<open>
  Claim C6. On a state with neither a target document id nor an ambient document id, each
  of the handlers validation, force_validate, delete_document, get_details and rag_query
  only records its tool name, sets \<open>needs_clarification\<close> and its own question, makes no
  Gateway or tool call (no event), and leaves \<open>error\<close> and \<open>response\<close> as they were.
\<close>

theorem handlers_ask_for_document:
  "\<not> truthy (target_document_id state) \<and> \<not> truthy (document_id state) \<longrightarrow>
     validation_node env state
       = (state\<lparr>tool_name := Some ''validate_invoice'', needs_clarification := True,
                 clarification_question := Some
                   ''Which invoice would you like me to validate? Please provide the invoice ID or filename.''\<rparr>, [])
     \<and> force_validate_node env state
       = (state\<lparr>tool_name := Some ''force_validate_document'', needs_clarification := True,
                 clarification_question := Some
                   ''Which invoice would you like me to force validate? Please provide the invoice ID.''\<rparr>, [])
     \<and> delete_document_node env state
       = (Inr (state\<lparr>tool_name := Some ''delete_document'', needs_clarification := True,
                      clarification_question := Some
                        ''Which invoice would you like to delete? Please provide the invoice ID or filename.''\<rparr>), [])
     \<and> get_details_node env state
       = (state\<lparr>tool_name := Some ''get_invoice_details'', needs_clarification := True,
                 clarification_question := Some
                   ''Which invoice would you like details about? Please provide the invoice ID or select one.''\<rparr>, [])
     \<and> rag_query_node env state
       = (state\<lparr>tool_name := Some ''query_document'', needs_clarification := True,
                 clarification_question := Some
                   ''Which invoice are you asking about? Please select an invoice first.''\<rparr>, [])
     \<and> (\<forall>n\<in>{Validation, ForceValidate, DeleteDocument, GetDetails, RagQuery}.
           \<exists>state1 q. run_node env n state = (Inr state1, [])
             \<and> needs_clarification state1 \<and> clarification_question state1 = Some q \<and> q \<noteq> []
             \<and> error state1 = error state \<and> response state1 = response state)"
proof (rule impI)
  assume h: "\<not> truthy (target_document_id state) \<and> \<not> truthy (document_id state)"
  then have t: "nonempty (target_document_id state) = None"
    and o: "nonempty (py_or (target_document_id state) (document_id state)) = None"
    by (simp_all add: nonempty_not_truthy py_or_def)
  have v: "validation_node env state
       = (state\<lparr>tool_name := Some ''validate_invoice'', needs_clarification := True,
                 clarification_question := Some
                   ''Which invoice would you like me to validate? Please provide the invoice ID or filename.''\<rparr>, [])"
    using t by (simp add: validation_node_def)
  have f: "force_validate_node env state
       = (state\<lparr>tool_name := Some ''force_validate_document'', needs_clarification := True,
                 clarification_question := Some
                   ''Which invoice would you like me to force validate? Please provide the invoice ID.''\<rparr>, [])"
    using t by (simp add: force_validate_node_def)
  have d: "delete_document_node env state
       = (Inr (state\<lparr>tool_name := Some ''delete_document'', needs_clarification := True,
                      clarification_question := Some
                        ''Which invoice would you like to delete? Please provide the invoice ID or filename.''\<rparr>), [])"
    using t by (simp add: delete_document_node_def)
  have g: "get_details_node env state
       = (state\<lparr>tool_name := Some ''get_invoice_details'', needs_clarification := True,
                 clarification_question := Some
                   ''Which invoice would you like details about? Please provide the invoice ID or select one.''\<rparr>, [])"
    using o by (simp add: get_details_node_def)
  have r: "rag_query_node env state
       = (state\<lparr>tool_name := Some ''query_document'', needs_clarification := True,
                 clarification_question := Some
                   ''Which invoice are you asking about? Please select an invoice first.''\<rparr>, [])"
    using o by (simp add: rag_query_node_def)
  have a: "\<forall>n\<in>{Validation, ForceValidate, DeleteDocument, GetDetails, RagQuery}.
           \<exists>state1 q. run_node env n state = (Inr state1, [])
             \<and> needs_clarification state1 \<and> clarification_question state1 = Some q \<and> q \<noteq> []
             \<and> error state1 = error state \<and> response state1 = response state"
    by (simp add: run_node_def v f d g r)
  from v f d g r a show "validation_node env state
       = (state\<lparr>tool_name := Some ''validate_invoice'', needs_clarification := True,
                 clarification_question := Some
                   ''Which invoice would you like me to validate? Please provide the invoice ID or filename.''\<rparr>, [])
     \<and> force_validate_node env state
       = (state\<lparr>tool_name := Some ''force_validate_document'', needs_clarification := True,
                 clarification_question := Some
                   ''Which invoice would you like me to force validate? Please provide the invoice ID.''\<rparr>, [])
     \<and> delete_document_node env state
       = (Inr (state\<lparr>tool_name := Some ''delete_document'', needs_clarification := True,
                      clarification_question := Some
                        ''Which invoice would you like to delete? Please provide the invoice ID or filename.''\<rparr>), [])
     \<and> get_details_node env state
       = (state\<lparr>tool_name := Some ''get_invoice_details'', needs_clarification := True,
                 clarification_question := Some
                   ''Which invoice would you like details about? Please provide the invoice ID or select one.''\<rparr>, [])
     \<and> rag_query_node env state
       = (state\<lparr>tool_name := Some ''query_document'', needs_clarification := True,
                 clarification_question := Some
                   ''Which invoice are you asking about? Please select an invoice first.''\<rparr>, [])
     \<and> (\<forall>n\<in>{Validation, ForceValidate, DeleteDocument, GetDetails, RagQuery}.
           \<exists>state1 q. run_node env n state = (Inr state1, [])
             \<and> needs_clarification state1 \<and> clarification_question state1 = Some q \<and> q \<noteq> []
             \<and> error state1 = error state \<and> response state1 = response state)"
    by blast
qed


theorem handlers_ask_for_document_witness:
  "\<not> truthy (target_document_id (initial_state ''validate it'' ''s1'' None))
   \<and> \<not> truthy (document_id (initial_state ''validate it'' ''s1'' None))
   \<and> validation_node (sample_orch_env ''{}'' NotAnObject) (initial_state ''validate it'' ''s1'' None)
       = ((initial_state ''validate it'' ''s1'' None)
            \<lparr>tool_name := Some ''validate_invoice'', needs_clarification := True,
             clarification_question := Some
               ''Which invoice would you like me to validate? Please provide the invoice ID or filename.''\<rparr>, [])
   \<and> rag_query_node (sample_orch_env ''{}'' NotAnObject) (initial_state ''validate it'' ''s1'' None)
       = ((initial_state ''validate it'' ''s1'' None)
            \<lparr>tool_name := Some ''query_document'', needs_clarification := True,
             clarification_question := Some
               ''Which invoice are you asking about? Please select an invoice first.''\<rparr>, [])"
proof -
  have h: "\<not> truthy (target_document_id (initial_state ''validate it'' ''s1'' None))
      \<and> \<not> truthy (document_id (initial_state ''validate it'' ''s1'' None))"
    by (simp add: initial_state_def truthy_def)
  from handlers_ask_for_document[of "initial_state ''validate it'' ''s1'' None"
      "sample_orch_env ''{}'' NotAnObject"] h
  show ?thesis by blast
qed

text \<open>
  Off the fast path the classify node calls the Gateway once and never records an error:
  it ends with the intent of the classifier's object, with the intent of the keyword
  heuristics when the reply is not JSON, or with \<open>general_chat\<close> on any other failure.
\<close>

lemma classify_degrades:
  assumes slow: "\<not> (py_in ''export'' (lower (user_message state))
        \<or> (py_in ''download'' (lower (user_message state))
            \<and> py_in ''invoice'' (lower (user_message state))))"
  shows "snd (classify_intent_node env state) = [GatewayCall]"
    and "error (fst (classify_intent_node env state)) = None
          \<or> error (fst (classify_intent_node env state)) = error state"
    and "response (fst (classify_intent_node env state)) = response state"
    and "intent (fst (classify_intent_node env state)) = Some ''general_chat''
          \<or> (\<exists>result c. llm env
                 [[''role'' \<mapsto> ''user'', ''content'' \<mapsto>
                    INTENT_CLASSIFICATION_PROMPT (user_message state)
                      (case document_id state of
                         Some d \<Rightarrow> if d \<noteq> [] then ''User is viewing document: '' @ d
                                   else ''No specific document selected''
                       | None \<Rightarrow> ''No specific document selected'')]]
                 (Some ''You are a precise intent classifier. Respond only with valid JSON.'')
                 = Inr result
               \<and> (json_loads env (extract_json (gw_content result)) = JObject c
                    \<or> json_loads env (extract_json (gw_content result)) = JSONDecodeError
                       \<and> c = keyword_fallback (user_message state))
               \<and> intent (fst (classify_intent_node env state))
                    = jfield_get_default (c_intent c) ''general_chat'')"
  using slow
  by (auto simp: classify_intent_node_def Let_def split: sum.splits json_result.splits)

lemma keyword_fallback_intent:
  "c_intent (keyword_fallback msg) =
     Val (if py_in ''list'' (lower msg) \<and> py_in ''invoice'' (lower msg) then ''list_documents''
          else if py_in ''export'' (lower msg) \<or> py_in ''download'' (lower msg) then ''export_invoices''
          else if py_in ''validate'' (lower msg) then ''validate_invoice''
          else if py_in ''delete'' (lower msg) then ''delete_document''
          else if py_in ''detail'' (lower msg) \<or> py_in ''show'' (lower msg) then ''get_document_details''
          else ''general_chat'')"
  by (simp add: keyword_fallback_def Let_def)

text \<open>
  Claim C8 at the message "download as xlsx" with a classifier reply that is not JSON: the
  fast path does not apply, \<open>json.loads\<close> raises \<open>JSONDecodeError\<close>, and the keyword
  heuristics choose \<open>export_invoices\<close> with the format "csv", although the message
  mentions "xlsx": the heuristics test "excel" only, unlike the fast path.
\<close>

theorem classify_keyword_fallback_xlsx:
  "py_in ''xlsx'' (lower ''download as xlsx'')
   \<and> json_loads (sample_orch_env ''not json'' JSONDecodeError) (extract_json ''not json'')
       = JSONDecodeError
   \<and> classify_intent_node (sample_orch_env ''not json'' JSONDecodeError)
         (initial_state ''download as xlsx'' ''s1'' None)
       = ((initial_state ''download as xlsx'' ''s1'' None)
            \<lparr>intent := Some ''export_invoices'', target_document_id := None,
             export_format := Some ''csv'', export_filters := Some [],
             model_used := Some ''groq/compound''\<rparr>, [GatewayCall])"
proof -
  have x: "py_in ''xlsx'' (lower ''download as xlsx'')" by code_simp
  have m: "user_message (initial_state ''download as xlsx'' ''s1'' None) = ''download as xlsx''"
    "document_id (initial_state ''download as xlsx'' ''s1'' None) = None"
    by (simp_all add: initial_state_def)
  have f: "\<not> py_in ''export'' (lower ''download as xlsx'')"
    "\<not> py_in ''invoice'' (lower ''download as xlsx'')"
    by code_simp+
  have k: "keyword_fallback ''download as xlsx''
      = \<lparr>c_intent = Val ''export_invoices'', c_document_id = Absent,
         c_export_format = Val ''csv'', c_export_filters = Absent\<rparr>"
    by code_simp
  have "classify_intent_node (sample_orch_env ''not json'' JSONDecodeError)
         (initial_state ''download as xlsx'' ''s1'' None)
       = ((initial_state ''download as xlsx'' ''s1'' None)
            \<lparr>intent := Some ''export_invoices'', target_document_id := None,
             export_format := Some ''csv'', export_filters := Some [],
             model_used := Some ''groq/compound''\<rparr>, [GatewayCall])"
    by (simp add: classify_intent_node_def Let_def m f k sample_orch_env_def
        jfield_get_def jfield_get_default_def py_or_def truthy_def)
  with x show ?thesis by (simp add: sample_orch_env_def)
qed

section \<open>Orchestrator: runs of the graph\<close>

lemma response_node_truthy: "truthy (response (response_node state))"
  by (auto simp: response_node_def truthy_def nonempty_def split: option.splits)

lemma run_node_raises:
  "run_node env n state = (Inl e, ev) \<Longrightarrow>
     n = DeleteDocument \<and> (\<exists>oid. e = InvalidId oid \<and> ObjectId oid = None)"
  by (cases n)
    (auto simp: run_node_def delete_document_node_def get_by_id_def Let_def apfst_def map_prod_def
      split: option.splits if_splits prod.splits)

text \<open>
  The outcomes of a run: it ends in the response node with a non-empty response, or it
  is aborted by the \<open>InvalidId\<close> that leaves the delete handler, or by the validation of
  the state.
\<close>

lemma run_from_outcome:
  "case run_from env n state of
     (Inr final, ev, path) \<Rightarrow> path \<noteq> [] \<and> last path = Response \<and> truthy (response final)
   | (Inl e, ev, path) \<Rightarrow>
       path \<noteq> [] \<and>
       (case e of
          InvalidId oid \<Rightarrow> last path = DeleteDocument \<and> ObjectId oid = None
        | ValidationError \<Rightarrow> True
        | _ \<Rightarrow> False)"
proof (induction env n state rule: run_from.induct)
  case (1 env n state)
  obtain r ev where rn: "run_node env n state = (r, ev)" by (cases "run_node env n state")
  show ?case
  proof (cases r)
    case (Inl e)
    with rn run_node_raises[of env n state e ev] show ?thesis
      by (subst run_from.simps) auto
  next
    case (Inr state1)
    show ?thesis
    proof (cases "validate_state state1")
      case False
      with rn Inr show ?thesis by (subst run_from.simps) simp
    next
      case True
      show ?thesis
      proof (cases "next_node n state1")
        case None
        then have n: "n = Response"
          by (cases n) (auto simp: next_node_def)
        with rn Inr have "state1 = response_node state" by (simp add: run_node_def)
        with rn Inr None n True show ?thesis
          by (subst run_from.simps) (simp add: response_node_truthy)
      next
        case (Some n1)
        obtain r1 ev1 path1 where r1: "run_from env n1 state1 = (r1, ev1, path1)"
          by (cases "run_from env n1 state1")
        have step: "run_from env n state = (r1, ev @ ev1, n # path1)"
          using rn Inr True Some r1 by (subst run_from.simps) simp
        have "\<not> \<not> validate_state state1" using True by simp
        from "1.IH"[OF rn[symmetric] Inr this Some] r1 show ?thesis
          unfolding step by (cases r1) (auto split: py_exception.splits)
      qed
    qed
  qed
qed

lemma next_node_end: "(next_node n state = None) = (n = Response)"
  by (cases n) (auto simp: next_node_def)

text \<open>
  A classifier answer with an intent outside the nine of \<open>AgentState\<close> does not reach
  the fallback node: the validation of the state raises after the classify node.
\<close>

lemma run_aborts_on_unknown_intent:
  "run_agent
     (sample_orch_env ''{}''
        (JObject \<lparr>c_intent = Val ''smalltalk'', c_document_id = Absent,
                  c_export_format = Absent, c_export_filters = Absent\<rparr>))
     ''hello there'' ''s1'' None
   = (Inl ValidationError, [GatewayCall], [ClassifyIntent])"
proof -
  define env0 where "env0 = sample_orch_env ''{}''
        (JObject \<lparr>c_intent = Val ''smalltalk'', c_document_id = Absent,
                  c_export_format = Absent, c_export_filters = Absent\<rparr>)"
  define s0 where "s0 = initial_state ''hello there'' ''s1'' None"
  define s1 where "s1 = s0\<lparr>intent := Some ''smalltalk'',
      target_document_id := None, export_format := None,
      export_filters := Some [], model_used := Some ''groq/compound''\<rparr>"
  have m: "user_message s0 = ''hello there''" "document_id s0 = None"
    by (simp_all add: s0_def initial_state_def)
  have f: "\<not> py_in ''export'' (lower ''hello there'')"
    "\<not> py_in ''download'' (lower ''hello there'')"
    by code_simp+
  have c: "classify_intent_node env0 s0 = (s1, [GatewayCall])"
    by (simp add: classify_intent_node_def Let_def m f env0_def sample_orch_env_def s1_def
        jfield_get_def jfield_get_default_def py_or_def truthy_def)
  have bad: "\<not> validate_state s1"
    by (simp add: validate_state_def valid_intents_def s1_def)
  have "run_from env0 ClassifyIntent s0 = (Inl ValidationError, [GatewayCall], [ClassifyIntent])"
    by (subst run_from.simps) (simp add: run_node_def c bad)
  then show ?thesis by (simp add: run_agent_def env0_def s0_def)
qed

text \<open>
  Claim C9 at the message "please delete march.pdf", when the classifier answers with
  the intent \<open>delete_document\<close> and the file name "march.pdf" as the document: the
  classified state is valid and is routed to the delete handler, \<open>ObjectId\<close> refuses
  the file name, \<open>DocumentRepository.get_by_id\<close> raises \<open>InvalidId\<close> outside any \<open>try\<close>
  block, and the run ends with this exception after the nodes classify_intent and
  delete_document: it does not reach the response node and has no final state.
\<close>

theorem run_aborts_in_delete_document:
  "ObjectId ''march.pdf'' = None
   \<and> validate_state
        (fst (classify_intent_node
           (sample_orch_env ''{}''
              (JObject \<lparr>c_intent = Val ''delete_document'', c_document_id = Val ''march.pdf'',
                        c_export_format = Absent, c_export_filters = Absent\<rparr>))
           (initial_state ''please delete march.pdf'' ''s1'' None)))
   \<and> run_agent
        (sample_orch_env ''{}''
           (JObject \<lparr>c_intent = Val ''delete_document'', c_document_id = Val ''march.pdf'',
                     c_export_format = Absent, c_export_filters = Absent\<rparr>))
        ''please delete march.pdf'' ''s1'' None
      = (Inl (InvalidId ''march.pdf''),
         [GatewayCall, ToolCall ''DocumentRepository.get_by_id''],
         [ClassifyIntent, DeleteDocument])"
proof -
  define env0 where "env0 = sample_orch_env ''{}''
        (JObject \<lparr>c_intent = Val ''delete_document'', c_document_id = Val ''march.pdf'',
                  c_export_format = Absent, c_export_filters = Absent\<rparr>)"
  define s0 where "s0 = initial_state ''please delete march.pdf'' ''s1'' None"
  define s1 where "s1 = s0\<lparr>intent := Some ''delete_document'',
      target_document_id := Some ''march.pdf'', export_format := None,
      export_filters := Some [], model_used := Some ''groq/compound''\<rparr>"
  have m: "user_message s0 = ''please delete march.pdf''" "document_id s0 = None"
    "error s0 = None" "needs_clarification s0 = False"
    by (simp_all add: s0_def initial_state_def)
  have f: "\<not> py_in ''export'' (lower ''please delete march.pdf'')"
    "\<not> py_in ''download'' (lower ''please delete march.pdf'')"
    by code_simp+
  have c: "classify_intent_node env0 s0 = (s1, [GatewayCall])"
    by (simp add: classify_intent_node_def Let_def m f env0_def sample_orch_env_def s1_def
        jfield_get_def jfield_get_default_def py_or_def truthy_def)
  have ok: "validate_state s1"
    by (simp add: validate_state_def valid_intents_def s1_def)
  have r: "next_node ClassifyIntent s1 = Some DeleteDocument"
    by (simp add: next_node_def route_by_intent_def s1_def m truthy_def intent_to_node_def)
  have v: "ObjectId ''march.pdf'' = None"
    by (simp add: ObjectId_def)
  have d: "delete_document_node env0 s1
      = (Inl (InvalidId ''march.pdf''), [ToolCall ''DocumentRepository.get_by_id''])"
    by (simp add: delete_document_node_def s1_def nonempty_def get_by_id_def v)
  have d2: "run_from env0 DeleteDocument s1
      = (Inl (InvalidId ''march.pdf''), [ToolCall ''DocumentRepository.get_by_id''],
         [DeleteDocument])"
    by (subst run_from.simps) (simp add: run_node_def d)
  have "run_from env0 ClassifyIntent s0
      = (Inl (InvalidId ''march.pdf''),
         [GatewayCall, ToolCall ''DocumentRepository.get_by_id''],
         [ClassifyIntent, DeleteDocument])"
    by (subst run_from.simps) (simp add: run_node_def c ok r d2)
  with v ok c show ?thesis by (simp add: run_agent_def env0_def s0_def)
qed

end
